theory Spec2Isabelle
  imports Main "HOL-Library.Word" "HOL-Library.Log_Nat" "HOL-Library.Sublist"
begin

chapter \<open>The serial receiver layer of CRSF for Arduino: the model\<close>

text \<open>
  A shallow embedding of \<^verbatim>\<open>src/SerialReceiver/SerialReceiver.cpp\<close>: the unit converter
  (\<^verbatim>\<open>rcToUs\<close>, \<^verbatim>\<open>usToRc\<close>, \<^verbatim>\<open>readRcChannel\<close>), the flight-mode table, the life cycle
  (\<^verbatim>\<open>begin\<close>, \<^verbatim>\<open>end\<close>) and the poll routine \<^verbatim>\<open>processFrames\<close>.

  The model is the build with \<^verbatim>\<open>CRSF_RC_ENABLED > 0\<close> and \<^verbatim>\<open>CRSF_FLIGHTMODES_ENABLED > 0\<close>
  (the channel snapshot and the flight-mode table exist); telemetry, link statistics and
  the channel initialisation of \<^verbatim>\<open>begin\<close> stay switches of a configuration record.
\<close>

section \<open>Machine numbers\<close>

type_synonym u8 = "8 word"
type_synonym u16 = "16 word"
type_synonym s16 = "16 word"
type_synonym u32 = "32 word"

subsection \<open>Single-precision floating point\<close>

text \<open>
  The converters compute in \<^verbatim>\<open>float\<close> (the literal \<^verbatim>\<open>0.62477120195241F\<close> makes every
  operand a \<^verbatim>\<open>float\<close>). A finite \<^verbatim>\<open>float\<close> is a rational number; every arithmetic
  operation returns the exact result rounded to the nearest number with a 24-bit
  significand, ties to the even significand (IEEE 754 binary32, the default rounding
  mode). Every operation rounds on its own: a product and a sum are not contracted into
  one fused operation. The values of this file stay far below \<open>2 ^ 128\<close>, so infinities
  are not modelled; numbers below \<open>2 ^ - 126\<close> keep the spacing of the smallest normal
  binade.
\<close>

definition pow2 :: "int \<Rightarrow> rat" where
  "pow2 e = (if 0 \<le> e then 2 ^ nat e else 1 / 2 ^ nat (- e))"

text \<open>Rounding to the nearest integer, a tie to the even one.\<close>

definition rne :: "rat \<Rightarrow> int" where
  "rne x = (let f = \<lfloor>x\<rfloor>; d = x - of_int f in
            if d < 1 / 2 then f
            else if 1 / 2 < d then f + 1
            else if even f then f else f + 1)"

text \<open>The binary exponent of a positive number: \<open>2 ^ e \<le> x < 2 ^ (e + 1)\<close>.\<close>

definition f32_exponent :: "rat \<Rightarrow> int" where
  "f32_exponent x =
     (if 1 \<le> x then bitlen \<lfloor>x\<rfloor> - 1
      else (let j = bitlen \<lfloor>1 / x\<rfloor> - 1
            in if x * pow2 j = 1 then - j else - j - 1))"

definition f32_round :: "rat \<Rightarrow> rat" where
  "f32_round x =
     (if x = 0 then 0
      else (let ulp = pow2 (max (f32_exponent \<bar>x\<bar>) (- 126) - 23)
            in of_int (rne (x / ulp)) * ulp))"

text \<open>The conversion of an integer to \<^verbatim>\<open>float\<close>.\<close>

definition f32_of_int :: "int \<Rightarrow> rat" where
  "f32_of_int n = f32_round (of_int n)"

definition f32_mul :: "rat \<Rightarrow> rat \<Rightarrow> rat" where
  "f32_mul x y = f32_round (x * y)"

definition f32_add :: "rat \<Rightarrow> rat \<Rightarrow> rat" where
  "f32_add x y = f32_round (x + y)"

text \<open>Division; the divisor of this file is a non-zero constant.\<close>

definition f32_div :: "rat \<Rightarrow> rat \<Rightarrow> rat" where
  "f32_div x y = f32_round (x / y)"

subsection \<open>Undefined behaviour\<close>

text \<open>
  Where the C++ program has undefined behaviour the model stops with a fault, so that
  every function is total and a fault is a value a theorem can speak about.
\<close>

datatype fault =
    NullDereference     \<comment> \<open>a member call through a null pointer\<close>
  | UseAfterFree        \<comment> \<open>a member call through a pointer to a deleted object\<close>
  | DoubleFree          \<comment> \<open>\<^verbatim>\<open>delete\<close> of a deleted object\<close>
  | OutOfBounds         \<comment> \<open>an access outside the allocated array\<close>
  | Indeterminate       \<comment> \<open>a read of a value that was never written\<close>
  | CastOutOfRange      \<comment> \<open>a \<^verbatim>\<open>float\<close> whose integer part does not fit the target type\<close>

text \<open>
  The cast \<^verbatim>\<open>(uint16_t)\<close> of a \<^verbatim>\<open>float\<close> drops the fraction (towards zero). When the
  result does not fit into 16 bits the behaviour is undefined.
\<close>

definition f32_truncate :: "rat \<Rightarrow> int" where
  "f32_truncate x = (if 0 \<le> x then \<lfloor>x\<rfloor> else - \<lfloor>- x\<rfloor>)"

definition f32_to_u16 :: "rat \<Rightarrow> fault + u16" where
  "f32_to_u16 x =
     (let t = f32_truncate x
      in if 0 \<le> t \<and> t \<le> 65535 then Inr (word_of_int t) else Inl CastOutOfRange)"

text \<open>The literal \<^verbatim>\<open>0.62477120195241F\<close>: the decimal number, rounded to \<^verbatim>\<open>float\<close>.\<close>

definition f32_scale :: rat where
  "f32_scale = f32_round (62477120195241 / 100000000000000)"

section \<open>Unit conversion\<close>

text \<open>
  \<^verbatim>\<open>return (uint16_t)((rc * 0.62477120195241F) + 881);\<close>
  The operand \<^verbatim>\<open>rc\<close> and the literal \<^verbatim>\<open>881\<close> are converted to \<^verbatim>\<open>float\<close>.
\<close>

definition rcToUs :: "u16 \<Rightarrow> fault + u16" where
  "rcToUs rc =
     f32_to_u16 (f32_add (f32_mul (f32_of_int (uint rc)) f32_scale) (f32_of_int 881))"

text \<open>
  \<^verbatim>\<open>return (uint16_t)((us - 881) / 0.62477120195241F);\<close>
  The difference \<^verbatim>\<open>us - 881\<close> is taken in \<^verbatim>\<open>int\<close> (wider than 16 bits, so it is
  negative below 881) and then converted to \<^verbatim>\<open>float\<close>.
\<close>

definition usToRc :: "u16 \<Rightarrow> fault + u16" where
  "usToRc us = f32_to_u16 (f32_div (f32_of_int (uint us - 881)) f32_scale)"

section \<open>Data model\<close>

text \<open>
  Modelled from the spec: the header \<^verbatim>\<open>SerialReceiver.hpp\<close> and the protocol headers are
  not part of the sources. The snapshot holds "16 unsigned 16-bit channel values", which
  is what the bound \<^verbatim>\<open>channel <= 15\<close> of \<^verbatim>\<open>readRcChannel\<close> supposes.
\<close>

definition RC_CHANNEL_COUNT :: nat where
  "RC_CHANNEL_COUNT = 16"

text \<open>\<^verbatim>\<open>rcChannels_t\<close>: the fields the source reads and writes.\<close>

record rcChannels_t =
  valid :: bool
  failsafe :: bool
  value_rc :: "u16 list"      \<comment> \<open>\<^verbatim>\<open>uint16_t value[RC_CHANNEL_COUNT]\<close>\<close>

text \<open>\<^verbatim>\<open>flightMode_t\<close>: one entry of the flight-mode table.\<close>

record flightMode_t =
  channel :: u8
  min_rc :: u16               \<comment> \<open>the field \<^verbatim>\<open>min\<close>\<close>
  max_rc :: u16               \<comment> \<open>the field \<^verbatim>\<open>max\<close>\<close>

text \<open>
  The build configuration: the preprocessor switches the source tests and the constants
  and enumerators it takes from headers outside the sources. A flight-mode identifier
  (\<^verbatim>\<open>flightModeId_t\<close>) is the number of its enumerator. The last two fields are the
  comparisons between a snapshot structure and a 16-bit number that
  \<^verbatim>\<open>handleFlightMode\<close> applies; the header would have to declare them.
\<close>

record config =
  CRSF_TELEMETRY_ENABLED :: bool
  CRSF_LINK_STATISTICS_ENABLED :: bool
  CRSF_RC_INITIALISE_CHANNELS :: bool
  CRSF_RC_INITIALISE_ARMCHANNEL :: bool
  CRSF_RC_INITIALISE_THROTTLECHANNEL :: bool
  RC_CHANNEL_AUX1 :: nat
  RC_CHANNEL_THROTTLE :: nat
  CRSF_RC_CHANNEL_MIN :: u16
  CRSF_RC_CHANNEL_CENTER :: u16
  BAUD_RATE :: nat
  FLIGHT_MODE_COUNT :: nat
  FLIGHT_MODE_DISARMED :: nat
  FLIGHT_MODE_FAILSAFE :: nat
  FLIGHT_MODE_GPS_RESCUE :: nat
  FLIGHT_MODE_PASSTHROUGH :: nat
  FLIGHT_MODE_ANGLE :: nat
  FLIGHT_MODE_HORIZON :: nat
  FLIGHT_MODE_AIRMODE :: nat
  rcChannels_ge :: "rcChannels_t \<Rightarrow> u16 \<Rightarrow> bool"
  rcChannels_le :: "rcChannels_t \<Rightarrow> u16 \<Rightarrow> bool"

subsection \<open>Pointers to the engines\<close>

text \<open>
  \<^verbatim>\<open>crsf\<close> and \<^verbatim>\<open>telemetry\<close> point to objects only the receiver owns, so a pointer is
  modelled with the object it points to: null, a live object, or the address of an
  object that was deleted (not null, and not to be used).
\<close>

datatype 'a ptr = Null | Live 'a | Dangling

subsection \<open>The serial port\<close>

text \<open>
  The port holds the bytes received and not yet read. Bytes keep arriving while the
  program runs: \<open>incoming\<close> is the schedule of arrivals, one batch (possibly empty) for
  each time the program asks \<^verbatim>\<open>available()\<close>. The schedule is finite: the sender
  pauses at some point, and the loops over \<^verbatim>\<open>available()\<close> end.
\<close>

record uart =
  rx :: "u8 list"
  incoming :: "u8 list list"

definition uart_available :: "uart \<Rightarrow> nat \<times> uart" where
  "uart_available u =
     (case incoming u of
        [] \<Rightarrow> (length (rx u), u)
      | bs # bss \<Rightarrow> (length (rx u @ bs), u\<lparr>rx := rx u @ bs, incoming := bss\<rparr>))"

text \<open>\<^verbatim>\<open>read()\<close> returns the first byte as an \<^verbatim>\<open>int\<close>, or -1 when there is none.\<close>

definition uart_read :: "uart \<Rightarrow> int \<times> uart" where
  "uart_read u =
     (case rx u of
        [] \<Rightarrow> (- 1, u)
      | b # bs \<Rightarrow> (uint b, u\<lparr>rx := bs\<rparr>))"

definition bytes_left :: "uart \<Rightarrow> nat" where
  "bytes_left u = length (rx u) + length (concat (incoming u))"

subsection \<open>Calls on the collaborators\<close>

text \<open>The setters of the telemetry engine, with their arguments (a \<^verbatim>\<open>float\<close> as its value).\<close>

datatype telemetry_call =
    SetAttitudeData s16 s16 s16
  | SetBaroAltitudeData u16 s16
  | SetBatteryData rat rat u32 u8
  | SetFlightModeData string bool
  | SetGPSData rat rat rat rat rat u8

text \<open>
  What the receiver does to the world outside it, in order: calls on the port, bytes
  handed to the decoder, calls of the registered callbacks (a callback is the number of
  the function registered) and calls on the telemetry engine.
\<close>

datatype 'l event =
    UartBegin nat
  | UartEnd
  | UartFlush
  | Discarded int                       \<comment> \<open>\<^verbatim>\<open>_uart->read()\<close>, the result dropped\<close>
  | Fed u8 bool                         \<comment> \<open>\<^verbatim>\<open>crsf->receiveFrames(byte)\<close> and its answer\<close>
  | CrsfEnd
  | CrsfDeleted
  | TelemetryEnd
  | TelemetryDeleted
  | LinkStatisticsCallback nat 'l
  | TelemetrySent                       \<comment> \<open>\<^verbatim>\<open>telemetry->sendTelemetryData(_uart)\<close>\<close>
  | TelemetrySet telemetry_call
  | RcChannelsCallback nat rcChannels_t
  | FlightModeCallback nat nat

text \<open>
  The decode engine, the telemetry engine and the compatibility table are outside the
  sources: their behaviour is a parameter. \<open>'d\<close> is the state of a decoder, \<open>'t\<close> of a
  telemetry engine, \<open>'l\<close> the link statistics. \<^verbatim>\<open>new\<close> gives \<open>None\<close> when it returns
  a null pointer, which \<^verbatim>\<open>begin\<close> tests for.
\<close>

record ('d, 't, 'l) engines =
  isDevboardCompatible :: bool
  new_CRSF :: "'d option"
  CRSF_begin :: "'d \<Rightarrow> 'd"
  setFrameTime :: "nat \<Rightarrow> nat \<Rightarrow> 'd \<Rightarrow> 'd"
  receiveFrames :: "'d \<Rightarrow> u8 \<Rightarrow> bool \<times> 'd"
  getFailSafe :: "'d \<Rightarrow> bool"
  getRcChannels :: "'d \<Rightarrow> nat \<Rightarrow> u16"       \<comment> \<open>the value written to each index\<close>
  getLinkStatistics :: "'d \<Rightarrow> 'l"
  new_Telemetry :: "'t option"
  Telemetry_begin :: "'t \<Rightarrow> 't"
  Telemetry_update :: "'t \<Rightarrow> bool \<times> 't"
  sendTelemetryData :: "'t \<Rightarrow> 't"
  Telemetry_set :: "telemetry_call \<Rightarrow> 't \<Rightarrow> 't"

subsection \<open>The receiver\<close>

text \<open>
  The members of \<^verbatim>\<open>SerialReceiver\<close>. An entry of the flight-mode table is \<open>None\<close> until
  \<^verbatim>\<open>setFlightMode\<close> writes it (\<^verbatim>\<open>new flightMode_t[FLIGHT_MODE_COUNT]\<close> leaves the
  entries indeterminate), the link statistics until the decoder has filled them in. A
  callback is \<open>None\<close> when the pointer is null.
\<close>

record ('d, 't, 'l) receiver =
  uart :: uart
  rcChannels :: rcChannels_t
  flightModes :: "flightMode_t option list"
  crsf :: "'d ptr"
  telemetry :: "'t ptr"
  linkStatistics :: "'l option"
  linkStatisticsCallback :: "nat option"
  rcChannelsCallback :: "nat option"
  flightModeCallback :: "nat option"
  flightModeStr :: string

section \<open>Construction\<close>

text \<open>
  Both constructors have the same body; they differ in the port (\<^verbatim>\<open>Serial1\<close>, or the
  argument \<^verbatim>\<open>hwUartPort\<close>), which is the argument \<open>port\<close> here. The snapshot is allocated
  with both flags false and the values cleared by \<^verbatim>\<open>memset\<close>; the table is allocated and
  not written.
\<close>

text \<open>
  Modelled from the spec: the declarations of the members are not part of the sources.
  The constructors do not assign \<^verbatim>\<open>crsf\<close>, \<^verbatim>\<open>telemetry\<close> and the callbacks; they start
  as null pointers ("an engine that was never constructed", "the registered callback,
  if any"), which is what the null tests of the source suppose.
\<close>

definition SerialReceiver_new :: "config \<Rightarrow> uart \<Rightarrow> ('d, 't, 'l) receiver" where
  "SerialReceiver_new cfg port =
     \<lparr> uart = port,
       rcChannels = \<lparr> valid = False, failsafe = False,
                      value_rc = replicate RC_CHANNEL_COUNT 0 \<rparr>,
       flightModes = replicate (FLIGHT_MODE_COUNT cfg) None,
       crsf = Null,
       telemetry = Null,
       linkStatistics = None,
       linkStatisticsCallback = None,
       rcChannelsCallback = None,
       flightModeCallback = None,
       flightModeStr = [] \<rparr>"

section \<open>Draining the port\<close>

text \<open>
  \<^verbatim>\<open>while (_uart->available() > 0) { _uart->read(); }\<close>
  The loop returns the port and the values it read and dropped.
\<close>

function drain :: "uart \<Rightarrow> uart \<times> int list" where
  "drain u =
     (if 0 < fst (uart_available u)
      then (case uart_read (snd (uart_available u)) of
              (c, u') \<Rightarrow> (case drain u' of (u'', cs) \<Rightarrow> (u'', c # cs)))
      else (snd (uart_available u), []))"
  by pat_completeness auto

lemma bytes_left_available [simp]: "bytes_left (snd (uart_available u)) = bytes_left u"
  by (simp add: uart_available_def bytes_left_def split: list.split)

lemma rx_available: "0 < fst (uart_available u) \<Longrightarrow> rx (snd (uart_available u)) \<noteq> []"
  by (auto simp: uart_available_def split: list.splits)

lemma bytes_left_uart_read: "rx v \<noteq> [] \<Longrightarrow> bytes_left (snd (uart_read v)) < bytes_left v"
  by (cases "rx v") (simp_all add: uart_read_def bytes_left_def)

lemma bytes_left_read:
  "0 < fst (uart_available u) \<Longrightarrow>
   bytes_left (snd (uart_read (snd (uart_available u)))) < bytes_left u"
  using bytes_left_uart_read [OF rx_available, of u] by simp

termination drain
proof (relation "measure bytes_left", goal_cases)
  case 1
  show ?case by simp
next
  case (2 u c u')
  then show ?case
    using bytes_left_read [of u] by (metis in_measure snd_conv)
qed

declare drain.simps [simp del]

text \<open>\<^verbatim>\<open>flushRemainingFrames\<close>: \<^verbatim>\<open>_uart->flush()\<close>, then the loop.\<close>

definition flushRemainingFrames :: "uart \<Rightarrow> uart \<times> 'l event list" where
  "flushRemainingFrames u =
     (case drain u of (u', cs) \<Rightarrow> (u', UartFlush # map Discarded cs))"

section \<open>Life cycle\<close>

text \<open>
  The value \<^verbatim>\<open>begin\<close> gives channel \<open>i\<close>, under the four combinations of
  \<^verbatim>\<open>CRSF_RC_INITIALISE_ARMCHANNEL\<close> and \<^verbatim>\<open>CRSF_RC_INITIALISE_THROTTLECHANNEL\<close>.
\<close>

definition initialChannel :: "config \<Rightarrow> nat \<Rightarrow> u16" where
  "initialChannel cfg i =
     (if CRSF_RC_INITIALISE_ARMCHANNEL cfg \<and> CRSF_RC_INITIALISE_THROTTLECHANNEL cfg then
        (if i = RC_CHANNEL_AUX1 cfg \<or> i = RC_CHANNEL_THROTTLE cfg
         then CRSF_RC_CHANNEL_MIN cfg else CRSF_RC_CHANNEL_CENTER cfg)
      else if CRSF_RC_INITIALISE_ARMCHANNEL cfg then
        (if i = RC_CHANNEL_AUX1 cfg
         then CRSF_RC_CHANNEL_MIN cfg else CRSF_RC_CHANNEL_CENTER cfg)
      else if CRSF_RC_INITIALISE_THROTTLECHANNEL cfg then
        (if i = RC_CHANNEL_THROTTLE cfg
         then CRSF_RC_CHANNEL_MIN cfg else CRSF_RC_CHANNEL_CENTER cfg)
      else CRSF_RC_CHANNEL_CENTER cfg)"

text \<open>
  \<^verbatim>\<open>begin\<close>: the channels, the compatibility check, the decoder, the port, the
  telemetry engine, the drain. It returns its result, the receiver and the events. A
  failed \<^verbatim>\<open>begin\<close> undoes nothing.
\<close>

definition SerialReceiver_begin ::
  "('d, 't, 'l) engines \<Rightarrow> config \<Rightarrow> ('d, 't, 'l) receiver
     \<Rightarrow> bool \<times> ('d, 't, 'l) receiver \<times> 'l event list" where
  "SerialReceiver_begin E cfg s =
     (let s1 = (if CRSF_RC_INITIALISE_CHANNELS cfg
                then s\<lparr>rcChannels := (rcChannels s)
                        \<lparr>value_rc := map (initialChannel cfg) [0..<RC_CHANNEL_COUNT]\<rparr>\<rparr>
                else s)
      in if \<not> isDevboardCompatible E then (False, s1, [])
         else (case new_CRSF E of
                 None \<Rightarrow> (False, s1\<lparr>crsf := Null\<rparr>, [])
               | Some d \<Rightarrow>
                   (let s2 = s1\<lparr>crsf := Live (setFrameTime E (BAUD_RATE cfg) 10 (CRSF_begin E d))\<rparr>;
                        ev2 = [UartBegin (BAUD_RATE cfg)];
                        started =
                          (if CRSF_TELEMETRY_ENABLED cfg
                           then (case new_Telemetry E of
                                   None \<Rightarrow> None
                                 | Some t \<Rightarrow> Some (s2\<lparr>telemetry := Live (Telemetry_begin E t)\<rparr>))
                           else Some s2)
                    in (case started of
                          None \<Rightarrow> (False, s2\<lparr>telemetry := Null\<rparr>, ev2)
                        | Some s3 \<Rightarrow>
                            (case flushRemainingFrames (uart s3) of
                               (u, ev) \<Rightarrow> (True, s3\<lparr>uart := u\<rparr>, ev2 @ ev))))))"

text \<open>
  \<^verbatim>\<open>end\<close>: the drain, \<^verbatim>\<open>_uart->end()\<close>, then each engine whose pointer is not null is
  ended and deleted. The source leaves the pointer as it is after \<^verbatim>\<open>delete\<close>: it now
  dangles. A member call through a dangling pointer is a fault.
\<close>

definition end_telemetry ::
  "config \<Rightarrow> ('d, 't, 'l) receiver \<Rightarrow> 'l event list
     \<Rightarrow> fault + ('d, 't, 'l) receiver \<times> 'l event list" where
  "end_telemetry cfg s ev =
     (if CRSF_TELEMETRY_ENABLED cfg
      then (case telemetry s of
              Null \<Rightarrow> Inr (s, ev)
            | Live t \<Rightarrow> Inr (s\<lparr>telemetry := Dangling\<rparr>, ev @ [TelemetryEnd, TelemetryDeleted])
            | Dangling \<Rightarrow> Inl UseAfterFree)
      else Inr (s, ev))"

definition SerialReceiver_end ::
  "config \<Rightarrow> ('d, 't, 'l) receiver \<Rightarrow> fault + ('d, 't, 'l) receiver \<times> 'l event list" where
  "SerialReceiver_end cfg s =
     (case flushRemainingFrames (uart s) of
        (u, ev) \<Rightarrow>
          (let s1 = s\<lparr>uart := u\<rparr>; ev1 = ev @ [UartEnd]
           in (case crsf s1 of
                 Null \<Rightarrow> end_telemetry cfg s1 ev1
               | Live d \<Rightarrow> end_telemetry cfg (s1\<lparr>crsf := Dangling\<rparr>) (ev1 @ [CrsfEnd, CrsfDeleted])
               | Dangling \<Rightarrow> Inl UseAfterFree)))"

section \<open>The poll routine\<close>

text \<open>
  The body of \<^verbatim>\<open>if (crsf->receiveFrames(...))\<close>: the backlog is dropped, then the link
  statistics are fetched and published, then the telemetry engine is asked for its send
  window. \<open>d\<close> is the decoder \<^verbatim>\<open>crsf\<close> points to.
\<close>

definition processFrames_frame ::
  "('d, 't, 'l) engines \<Rightarrow> config \<Rightarrow> 'd \<Rightarrow> ('d, 't, 'l) receiver
     \<Rightarrow> fault + ('d, 't, 'l) receiver \<times> 'l event list" where
  "processFrames_frame E cfg d s =
     (case flushRemainingFrames (uart s) of
        (u, ev) \<Rightarrow>
          (let s1 = s\<lparr>uart := u\<rparr>;
               s2 = (if CRSF_LINK_STATISTICS_ENABLED cfg
                     then s1\<lparr>linkStatistics := Some (getLinkStatistics E d)\<rparr> else s1);
               ev2 = (if CRSF_LINK_STATISTICS_ENABLED cfg
                      then (case linkStatisticsCallback s1 of
                              None \<Rightarrow> []
                            | Some cb \<Rightarrow> [LinkStatisticsCallback cb (getLinkStatistics E d)])
                      else [])
           in if CRSF_TELEMETRY_ENABLED cfg
              then (case telemetry s2 of
                      Null \<Rightarrow> Inl NullDereference
                    | Dangling \<Rightarrow> Inl UseAfterFree
                    | Live t \<Rightarrow>
                        (case Telemetry_update E t of
                           (True, t') \<Rightarrow>
                             Inr (s2\<lparr>telemetry := Live (sendTelemetryData E t')\<rparr>,
                                  ev @ ev2 @ [TelemetrySent])
                         | (False, t') \<Rightarrow> Inr (s2\<lparr>telemetry := Live t'\<rparr>, ev @ ev2)))
              else Inr (s2, ev @ ev2)))"

text \<open>
  \<^verbatim>\<open>while (_uart->available() > 0) { if (crsf->receiveFrames((uint8_t)_uart->read())) ... }\<close>
\<close>

function processFrames_loop ::
  "('d, 't, 'l) engines \<Rightarrow> config \<Rightarrow> ('d, 't, 'l) receiver
     \<Rightarrow> fault + ('d, 't, 'l) receiver \<times> 'l event list" where
  "processFrames_loop E cfg s =
     (if 0 < fst (uart_available (uart s))
      then (case uart_read (snd (uart_available (uart s))) of
              (c, u) \<Rightarrow>
                (case crsf s of
                   Null \<Rightarrow> Inl NullDereference
                 | Dangling \<Rightarrow> Inl UseAfterFree
                 | Live d \<Rightarrow>
                     (case receiveFrames E d (word_of_int c) of
                        (True, d') \<Rightarrow>
                          (case processFrames_frame E cfg d' (s\<lparr>uart := u, crsf := Live d'\<rparr>) of
                             Inl f \<Rightarrow> Inl f
                           | Inr (s', ev) \<Rightarrow>
                               (case processFrames_loop E cfg s' of
                                  Inl f \<Rightarrow> Inl f
                                | Inr (s'', ev') \<Rightarrow>
                                    Inr (s'', Fed (word_of_int c) True # ev @ ev')))
                      | (False, d') \<Rightarrow>
                          (case processFrames_loop E cfg (s\<lparr>uart := u, crsf := Live d'\<rparr>) of
                             Inl f \<Rightarrow> Inl f
                           | Inr (s'', ev') \<Rightarrow> Inr (s'', Fed (word_of_int c) False # ev')))))
      else Inr (s\<lparr>uart := snd (uart_available (uart s))\<rparr>, []))"
  by pat_completeness auto

lemma bytes_left_drain: "bytes_left (fst (drain u)) \<le> bytes_left u"
proof (induction u rule: drain.induct)
  case (1 u)
  show ?case
  proof (cases "0 < fst (uart_available u)")
    case True
    obtain c u' where r: "uart_read (snd (uart_available u)) = (c, u')"
      by (cases "uart_read (snd (uart_available u))")
    have "bytes_left (fst (drain u')) \<le> bytes_left u'"
      using "1.IH" [OF True r [symmetric]] .
    moreover have "bytes_left u' < bytes_left u"
      using bytes_left_read [OF True] r by simp
    moreover have "fst (drain u) = fst (drain u')"
      using True r by (subst drain.simps) (simp split: prod.split)
    ultimately show ?thesis by simp
  next
    case False
    then show ?thesis by (subst drain.simps) simp
  qed
qed

lemma bytes_left_frame:
  "processFrames_frame E cfg d s = Inr (s', ev) \<Longrightarrow> bytes_left (uart s') \<le> bytes_left (uart s)"
  using bytes_left_drain [of "uart s"]
  by (auto simp: processFrames_frame_def flushRemainingFrames_def Let_def
      split: prod.splits if_splits ptr.splits bool.splits)

termination processFrames_loop
proof (relation "measure (\<lambda>(E, cfg, s). bytes_left (uart s))", goal_cases)
  case 1
  show ?case by simp
next
  case (2 E cfg s c u d fin d' b s' ev)
  have "bytes_left u < bytes_left (uart s)"
    using bytes_left_read [OF 2(1)] 2(2) by (metis snd_conv)
  moreover have "processFrames_frame E cfg d' (s\<lparr>uart := u, crsf := Live d'\<rparr>) = Inr (s', ev)"
    using 2(6,7) by simp
  then have "bytes_left (uart s') \<le> bytes_left u"
    using bytes_left_frame by fastforce
  ultimately show ?case by simp
next
  case (3 E cfg s c u d fin d')
  have "bytes_left u < bytes_left (uart s)"
    using bytes_left_read [OF 3(1)] 3(2) by (metis snd_conv)
  then show ?case by simp
qed

declare processFrames_loop.simps [simp del]

text \<open>
  \<^verbatim>\<open>processFrames\<close>: the loop, then the failsafe flag and the channels are fetched from
  the decoder and the snapshot is handed to the callback, when one is registered.
\<close>

definition processFrames ::
  "('d, 't, 'l) engines \<Rightarrow> config \<Rightarrow> ('d, 't, 'l) receiver
     \<Rightarrow> fault + ('d, 't, 'l) receiver \<times> 'l event list" where
  "processFrames E cfg s =
     (case processFrames_loop E cfg s of
        Inl f \<Rightarrow> Inl f
      | Inr (s1, ev) \<Rightarrow>
          (case crsf s1 of
             Null \<Rightarrow> Inl NullDereference
           | Dangling \<Rightarrow> Inl UseAfterFree
           | Live d \<Rightarrow>
               (let s2 = s1\<lparr>rcChannels := (rcChannels s1)
                           \<lparr>failsafe := getFailSafe E d,
                            value_rc := map (getRcChannels E d) [0..<RC_CHANNEL_COUNT]\<rparr>\<rparr>
                in Inr (s2, ev @ (case rcChannelsCallback s2 of
                                    None \<Rightarrow> []
                                  | Some cb \<Rightarrow> [RcChannelsCallback cb (rcChannels s2)])))))"

definition setLinkStatisticsCallback ::
  "('d, 't, 'l) receiver \<Rightarrow> nat option \<Rightarrow> ('d, 't, 'l) receiver" where
  "setLinkStatisticsCallback s callback = s\<lparr>linkStatisticsCallback := callback\<rparr>"

definition setRcChannelsCallback ::
  "('d, 't, 'l) receiver \<Rightarrow> nat option \<Rightarrow> ('d, 't, 'l) receiver" where
  "setRcChannelsCallback s callback = s\<lparr>rcChannelsCallback := callback\<rparr>"

section \<open>Channel access\<close>

text \<open>
  \<^verbatim>\<open>readRcChannel\<close> returns its result and the receiver, which it does not assign to.
  The conversion repeats the expression of \<^verbatim>\<open>rcToUs\<close> on the stored value.
\<close>

definition readRcChannel ::
  "('d, 't, 'l) receiver \<Rightarrow> u8 \<Rightarrow> bool \<Rightarrow> fault + u16 \<times> ('d, 't, 'l) receiver" where
  "readRcChannel s ch raw =
     (if ch \<le> 15 then
        (if unat ch < length (value_rc (rcChannels s)) then
           (if raw then Inr (value_rc (rcChannels s) ! unat ch, s)
            else (case f32_to_u16
                         (f32_add
                            (f32_mul (f32_of_int (uint (value_rc (rcChannels s) ! unat ch)))
                               f32_scale)
                            (f32_of_int 881)) of
                    Inl f \<Rightarrow> Inl f
                  | Inr us \<Rightarrow> Inr (us, s)))
         else Inl OutOfBounds)
      else Inr (0, s))"

definition getChannel ::
  "('d, 't, 'l) receiver \<Rightarrow> u8 \<Rightarrow> fault + u16 \<times> ('d, 't, 'l) receiver" where
  "getChannel s ch = readRcChannel s ch True"

section \<open>Flight modes\<close>

text \<open>
  \<^verbatim>\<open>setFlightMode\<close> writes the three fields of entry \<^verbatim>\<open>flightMode\<close>. The table has the
  entries the constructor allocated; a write outside them is a fault.
\<close>

definition setFlightMode ::
  "config \<Rightarrow> ('d, 't, 'l) receiver \<Rightarrow> nat \<Rightarrow> u8 \<Rightarrow> u16 \<Rightarrow> u16
     \<Rightarrow> fault + bool \<times> ('d, 't, 'l) receiver" where
  "setFlightMode cfg s flightMode ch mn mx =
     (if flightMode < FLIGHT_MODE_COUNT cfg \<and> ch \<le> 15 then
        (if flightMode < length (flightModes s)
         then Inr (True, s\<lparr>flightModes := (flightModes s)
                          [flightMode := Some \<lparr>channel = ch, min_rc = mn, max_rc = mx\<rparr>]\<rparr>)
         else Inl OutOfBounds)
      else Inr (False, s))"

definition setFlightModeCallback ::
  "('d, 't, 'l) receiver \<Rightarrow> nat option \<Rightarrow> ('d, 't, 'l) receiver" where
  "setFlightModeCallback s callback = s\<lparr>flightModeCallback := callback\<rparr>"

text \<open>
  The loop of \<^verbatim>\<open>handleFlightMode\<close> over the indices \<open>is\<close>, with the callback \<open>cb\<close>:
  \<^verbatim>\<open>if (_rcChannels[_flightModes[i].channel] >= _flightModes[i].min
       && _rcChannels[_flightModes[i].channel] <= _flightModes[i].max)\<close>
  \<^verbatim>\<open>_rcChannels\<close> is the pointer to the one snapshot structure the constructor
  allocated, so \<^verbatim>\<open>_rcChannels[k]\<close> is that structure for \<open>k = 0\<close> and lies outside the
  allocation for every other \<open>k\<close>. The expression does not reach the member
  \<^verbatim>\<open>value\<close>. The structure is compared with the two bounds by the comparisons of the
  configuration.
\<close>

fun handleFlightMode_scan ::
  "config \<Rightarrow> ('d, 't, 'l) receiver \<Rightarrow> nat \<Rightarrow> nat list \<Rightarrow> fault + 'l event list" where
  "handleFlightMode_scan cfg s cb [] = Inr []"
| "handleFlightMode_scan cfg s cb (i # is) =
     (if i < length (flightModes s) then
        (case flightModes s ! i of
           None \<Rightarrow> Inl Indeterminate
         | Some m \<Rightarrow>
             (if unat (channel m) = 0 then
                (if rcChannels_ge cfg (rcChannels s) (min_rc m)
                    \<and> rcChannels_le cfg (rcChannels s) (max_rc m)
                 then Inr [FlightModeCallback cb i]
                 else handleFlightMode_scan cfg s cb is)
              else Inl OutOfBounds))
      else Inl OutOfBounds)"

definition handleFlightMode ::
  "config \<Rightarrow> ('d, 't, 'l) receiver \<Rightarrow> fault + ('d, 't, 'l) receiver \<times> 'l event list" where
  "handleFlightMode cfg s =
     (case flightModeCallback s of
        None \<Rightarrow> Inr (s, [])
      | Some cb \<Rightarrow>
          (case handleFlightMode_scan cfg s cb [0..<FLIGHT_MODE_COUNT cfg] of
             Inl f \<Rightarrow> Inl f
           | Inr ev \<Rightarrow> Inr (s, ev)))"

section \<open>Telemetry\<close>

text \<open>A call of a setter through the pointer \<^verbatim>\<open>telemetry\<close>.\<close>

definition telemetry_forward ::
  "('d, 't, 'l) engines \<Rightarrow> ('d, 't, 'l) receiver \<Rightarrow> telemetry_call
     \<Rightarrow> fault + ('d, 't, 'l) receiver \<times> 'l event list" where
  "telemetry_forward E s c =
     (case telemetry s of
        Null \<Rightarrow> Inl NullDereference
      | Dangling \<Rightarrow> Inl UseAfterFree
      | Live t \<Rightarrow> Inr (s\<lparr>telemetry := Live (Telemetry_set E c t)\<rparr>, [TelemetrySet c]))"

definition telemetryWriteAttitude ::
  "('d, 't, 'l) engines \<Rightarrow> ('d, 't, 'l) receiver \<Rightarrow> s16 \<Rightarrow> s16 \<Rightarrow> s16
     \<Rightarrow> fault + ('d, 't, 'l) receiver \<times> 'l event list" where
  "telemetryWriteAttitude E s roll pitch yaw = telemetry_forward E s (SetAttitudeData roll pitch yaw)"

definition telemetryWriteBaroAltitude ::
  "('d, 't, 'l) engines \<Rightarrow> ('d, 't, 'l) receiver \<Rightarrow> u16 \<Rightarrow> s16
     \<Rightarrow> fault + ('d, 't, 'l) receiver \<times> 'l event list" where
  "telemetryWriteBaroAltitude E s altitude vario =
     telemetry_forward E s (SetBaroAltitudeData altitude vario)"

definition telemetryWriteBattery ::
  "('d, 't, 'l) engines \<Rightarrow> ('d, 't, 'l) receiver \<Rightarrow> rat \<Rightarrow> rat \<Rightarrow> u32 \<Rightarrow> u8
     \<Rightarrow> fault + ('d, 't, 'l) receiver \<times> 'l event list" where
  "telemetryWriteBattery E s voltage current fuel percent =
     telemetry_forward E s (SetBatteryData voltage current fuel percent)"

text \<open>
  \<^verbatim>\<open>telemetryWriteFlightMode\<close>: the \<^verbatim>\<open>switch\<close> chooses the display string (its labels
  are distinct enumerators; they are tested in the order of the source), then
  \<^verbatim>\<open>telemetry->setFlightModeData(flightModeStr,
       (bool)(flightModeId == FLIGHT_MODE_DISARMED ? true : false));\<close>
\<close>

definition flightModeString :: "config \<Rightarrow> nat \<Rightarrow> string" where
  "flightModeString cfg flightModeId =
     (if flightModeId = FLIGHT_MODE_FAILSAFE cfg then ''!FS!''
      else if flightModeId = FLIGHT_MODE_GPS_RESCUE cfg then ''RTH''
      else if flightModeId = FLIGHT_MODE_PASSTHROUGH cfg then ''MANU''
      else if flightModeId = FLIGHT_MODE_ANGLE cfg then ''STAB''
      else if flightModeId = FLIGHT_MODE_HORIZON cfg then ''HOR''
      else if flightModeId = FLIGHT_MODE_AIRMODE cfg then ''AIR''
      else ''ACRO'')"

definition telemetryWriteFlightMode ::
  "('d, 't, 'l) engines \<Rightarrow> config \<Rightarrow> ('d, 't, 'l) receiver \<Rightarrow> nat
     \<Rightarrow> fault + ('d, 't, 'l) receiver \<times> 'l event list" where
  "telemetryWriteFlightMode E cfg s flightModeId =
     (let s1 = s\<lparr>flightModeStr := flightModeString cfg flightModeId\<rparr>
      in telemetry_forward E s1
           (SetFlightModeData (flightModeStr s1)
              (if flightModeId = FLIGHT_MODE_DISARMED cfg then True else False)))"

text \<open>
  \<^verbatim>\<open>telemetryWriteCustomFlightMode(const char *flightModeStr, bool armed = true)\<close> passes
  both arguments on: the second argument of the setter is the armed flag.
\<close>

definition telemetryWriteCustomFlightMode ::
  "('d, 't, 'l) engines \<Rightarrow> ('d, 't, 'l) receiver \<Rightarrow> string \<Rightarrow> bool
     \<Rightarrow> fault + ('d, 't, 'l) receiver \<times> 'l event list" where
  "telemetryWriteCustomFlightMode E s str armed =
     telemetry_forward E s (SetFlightModeData str armed)"

definition telemetryWriteGPS ::
  "('d, 't, 'l) engines \<Rightarrow> ('d, 't, 'l) receiver \<Rightarrow> rat \<Rightarrow> rat \<Rightarrow> rat \<Rightarrow> rat \<Rightarrow> rat \<Rightarrow> u8
     \<Rightarrow> fault + ('d, 't, 'l) receiver \<times> 'l event list" where
  "telemetryWriteGPS E s latitude longitude altitude speed groundCourse satellites =
     telemetry_forward E s
       (SetGPSData latitude longitude altitude speed groundCourse satellites)"

section \<open>Sequences of calls\<close>

text \<open>
  The public operations of the receiver, and the arrival of a further schedule of bytes
  on the wire between two calls.
\<close>

datatype call =
    Begin
  | End
  | ProcessFrames
  | SetLinkStatisticsCallback "nat option"
  | SetRcChannelsCallback "nat option"
  | ReadRcChannel u8 bool
  | GetChannel u8
  | SetFlightMode nat u8 u16 u16
  | SetFlightModeCallback "nat option"
  | HandleFlightMode
  | TelemetryWriteAttitude s16 s16 s16
  | TelemetryWriteBaroAltitude u16 s16
  | TelemetryWriteBattery rat rat u32 u8
  | TelemetryWriteFlightMode nat
  | TelemetryWriteCustomFlightMode string bool
  | TelemetryWriteGPS rat rat rat rat rat u8
  | Arrive "u8 list list"

definition without_result :: "fault + 'r \<times> 's \<Rightarrow> fault + 's \<times> 'e list" where
  "without_result r = (case r of Inl f \<Rightarrow> Inl f | Inr (x, s) \<Rightarrow> Inr (s, []))"

fun perform ::
  "('d, 't, 'l) engines \<Rightarrow> config \<Rightarrow> ('d, 't, 'l) receiver \<Rightarrow> call
     \<Rightarrow> fault + ('d, 't, 'l) receiver \<times> 'l event list" where
  "perform E cfg s Begin = Inr (snd (SerialReceiver_begin E cfg s))"
| "perform E cfg s End = SerialReceiver_end cfg s"
| "perform E cfg s ProcessFrames = processFrames E cfg s"
| "perform E cfg s (SetLinkStatisticsCallback cb) = Inr (setLinkStatisticsCallback s cb, [])"
| "perform E cfg s (SetRcChannelsCallback cb) = Inr (setRcChannelsCallback s cb, [])"
| "perform E cfg s (ReadRcChannel ch raw) = without_result (readRcChannel s ch raw)"
| "perform E cfg s (GetChannel ch) = without_result (getChannel s ch)"
| "perform E cfg s (SetFlightMode i ch mn mx) = without_result (setFlightMode cfg s i ch mn mx)"
| "perform E cfg s (SetFlightModeCallback cb) = Inr (setFlightModeCallback s cb, [])"
| "perform E cfg s HandleFlightMode = handleFlightMode cfg s"
| "perform E cfg s (TelemetryWriteAttitude r p y) = telemetryWriteAttitude E s r p y"
| "perform E cfg s (TelemetryWriteBaroAltitude a v) = telemetryWriteBaroAltitude E s a v"
| "perform E cfg s (TelemetryWriteBattery v c f p) = telemetryWriteBattery E s v c f p"
| "perform E cfg s (TelemetryWriteFlightMode i) = telemetryWriteFlightMode E cfg s i"
| "perform E cfg s (TelemetryWriteCustomFlightMode str a) =
     telemetryWriteCustomFlightMode E s str a"
| "perform E cfg s (TelemetryWriteGPS la lo al sp gc sa) = telemetryWriteGPS E s la lo al sp gc sa"
| "perform E cfg s (Arrive bss) =
     Inr (s\<lparr>uart := (uart s)\<lparr>incoming := incoming (uart s) @ bss\<rparr>\<rparr>, [])"

fun run ::
  "('d, 't, 'l) engines \<Rightarrow> config \<Rightarrow> ('d, 't, 'l) receiver \<Rightarrow> call list
     \<Rightarrow> fault + ('d, 't, 'l) receiver \<times> 'l event list" where
  "run E cfg s [] = Inr (s, [])"
| "run E cfg s (c # cs) =
     (case perform E cfg s c of
        Inl f \<Rightarrow> Inl f
      | Inr (s', ev) \<Rightarrow>
          (case run E cfg s' cs of
             Inl f \<Rightarrow> Inl f
           | Inr (s'', ev') \<Rightarrow> Inr (s'', ev @ ev')))"

section \<open>Predicates of the statements\<close>

text \<open>The engines are constructed: the state a successful \<^verbatim>\<open>begin\<close> leaves.\<close>

definition ready :: "config \<Rightarrow> ('d, 't, 'l) receiver \<Rightarrow> bool" where
  "ready cfg s =
     ((case crsf s of Live d \<Rightarrow> True | _ \<Rightarrow> False)
      \<and> (if CRSF_TELEMETRY_ENABLED cfg
         then (case telemetry s of Live t \<Rightarrow> True | _ \<Rightarrow> False) else True))"

text \<open>The bytes a trace handed to the decoder, and the bytes a port still has to deliver.\<close>

fun fed :: "'l event list \<Rightarrow> u8 list" where
  "fed [] = []"
| "fed (Fed b r # ev) = b # fed ev"
| "fed (e # ev) = fed ev"

definition pending :: "uart \<Rightarrow> u8 list" where
  "pending u = rx u @ concat (incoming u)"

fun is_publish :: "'l event \<Rightarrow> bool" where
  "is_publish (RcChannelsCallback cb rc) = True"
| "is_publish e = False"

fun is_frame_work :: "'l event \<Rightarrow> bool" where
  "is_frame_work (LinkStatisticsCallback cb l) = True"
| "is_frame_work TelemetrySent = True"
| "is_frame_work e = False"

section \<open>An example build\<close>

text \<open>
  A configuration with everything switched on, and engines whose decoder (its state is
  the number of bytes it has seen) completes a frame with every byte \<open>0xC8\<close>, reports the
  centre value on every channel, and whose telemetry engine is ready at every frame.
\<close>

definition example_config :: config where
  "example_config =
     \<lparr> CRSF_TELEMETRY_ENABLED = True,
       CRSF_LINK_STATISTICS_ENABLED = True,
       CRSF_RC_INITIALISE_CHANNELS = True,
       CRSF_RC_INITIALISE_ARMCHANNEL = True,
       CRSF_RC_INITIALISE_THROTTLECHANNEL = True,
       RC_CHANNEL_AUX1 = 4,
       RC_CHANNEL_THROTTLE = 2,
       CRSF_RC_CHANNEL_MIN = 172,
       CRSF_RC_CHANNEL_CENTER = 992,
       BAUD_RATE = 420000,
       FLIGHT_MODE_COUNT = 9,
       FLIGHT_MODE_DISARMED = 0,
       FLIGHT_MODE_FAILSAFE = 3,
       FLIGHT_MODE_GPS_RESCUE = 4,
       FLIGHT_MODE_PASSTHROUGH = 5,
       FLIGHT_MODE_ANGLE = 6,
       FLIGHT_MODE_HORIZON = 7,
       FLIGHT_MODE_AIRMODE = 8,
       rcChannels_ge = (\<lambda>rc x. True),
       rcChannels_le = (\<lambda>rc x. True) \<rparr>"

definition example_engines :: "(nat, unit, nat) engines" where
  "example_engines =
     \<lparr> isDevboardCompatible = True,
       new_CRSF = Some 0,
       CRSF_begin = (\<lambda>d. d),
       setFrameTime = (\<lambda>baud overhead d. d),
       receiveFrames = (\<lambda>d b. (b = 200, Suc d)),
       getFailSafe = (\<lambda>d. False),
       getRcChannels = (\<lambda>d i. 992),
       getLinkStatistics = (\<lambda>d. d),
       new_Telemetry = Some (),
       Telemetry_begin = (\<lambda>t. t),
       Telemetry_update = (\<lambda>t. (True, t)),
       sendTelemetryData = (\<lambda>t. t),
       Telemetry_set = (\<lambda>c t. t) \<rparr>"

text \<open>
  A port on which nothing has arrived yet. Two bytes arrive together at the second poll,
  the first of them completing a frame; one more byte arrives while the backlog is
  dropped, and two bytes, the second one a frame byte, after that.
\<close>

definition example_port :: uart where
  "example_port = \<lparr> rx = [], incoming = [[], [200, 7], [9], [], [], [5, 200]] \<rparr>"

definition example_receiver :: "(nat, unit, nat) receiver" where
  "example_receiver =
     setRcChannelsCallback
       (setLinkStatisticsCallback (SerialReceiver_new example_config example_port) (Some 1))
       (Some 2)"

text \<open>The example receiver after \<^verbatim>\<open>begin\<close>.\<close>

definition example_begun :: "(nat, unit, nat) receiver" where
  "example_begun =
     fst (snd (SerialReceiver_begin example_engines example_config example_receiver))"

chapter \<open>Properties\<close>

section \<open>Facts about the floating-point model\<close>

lemma floor_rat_numeral_div:
  "\<lfloor>numeral a / numeral b :: rat\<rfloor> = numeral a div numeral b"
  by (metis floor_divide_of_int_eq of_int_numeral)

lemma floor_rat_neg_numeral_div:
  "\<lfloor>- (numeral a / numeral b) :: rat\<rfloor> = - numeral a div numeral b"
  by (metis floor_divide_of_int_eq of_int_numeral of_int_minus minus_divide_left)

lemmas f32_eval = f32_round_def f32_exponent_def pow2_def rne_def Let_def compute_bitlen
  floor_rat_numeral_div floor_rat_neg_numeral_div f32_of_int_def f32_mul_def f32_add_def
  f32_div_def f32_truncate_def f32_to_u16_def

lemma f32_scale_value: "f32_scale = 10481921 / 16777216"
  by (simp add: f32_scale_def f32_eval)

lemma rne_error: "\<bar>of_int (rne x) - x\<bar> \<le> 1 / 2"
  unfolding rne_def Let_def by (auto simp: abs_if) linarith+

lemma rne_of_int: "rne (of_int k) = k"
  by (simp add: rne_def)

lemma pow2_pos: "0 < pow2 e"
  by (simp add: pow2_def)

lemma pow2_power_int: "pow2 e = power_int 2 e"
  by (simp add: pow2_def power_int_def power_one_over)

lemma pow2_diff: "pow2 (a - b) = pow2 a / pow2 b"
  by (simp add: pow2_power_int power_int_diff)

lemma pow2_add: "pow2 (a + b) = pow2 a * pow2 b"
  by (simp add: pow2_power_int power_int_add)

lemma pow2_Suc: "pow2 (e + 1) = 2 * pow2 e"
proof -
  have "pow2 (e + 1) = pow2 e * pow2 1" by (rule pow2_add)
  also have "pow2 1 = 2" by (simp add: pow2_def)
  finally show ?thesis by simp
qed

lemma pow2_nat: "0 \<le> e \<Longrightarrow> pow2 e = 2 ^ nat e"
  by (simp add: pow2_def)

lemma pow2_neg: "pow2 (- e) = 1 / pow2 e"
  by (simp add: pow2_power_int power_int_minus field_simps)

lemma bitlen_floor_bounds:
  fixes y :: rat
  assumes "1 \<le> y"
  defines "j \<equiv> bitlen \<lfloor>y\<rfloor> - 1"
  shows "0 \<le> j" "pow2 j \<le> y" "y < pow2 (j + 1)"
proof -
  have n: "0 < \<lfloor>y\<rfloor>" using assms by simp
  have b: "1 \<le> bitlen \<lfloor>y\<rfloor>"
    using n bitlen_eq_zero_iff [of "\<lfloor>y\<rfloor>"] bitlen_nonneg [of "\<lfloor>y\<rfloor>"] by linarith
  then show j: "0 \<le> j" by (simp add: j_def)
  have lo: "(2::int) ^ nat j \<le> \<lfloor>y\<rfloor>" and hi: "\<lfloor>y\<rfloor> < 2 ^ nat (j + 1)"
    using bitlen_bounds [OF n] by (simp_all add: j_def)
  from lo have "rat_of_int (2 ^ nat j) \<le> of_int \<lfloor>y\<rfloor>" by (simp only: of_int_le_iff)
  also have "\<dots> \<le> y" by simp
  finally show "pow2 j \<le> y" using j by (simp add: pow2_nat)
  from hi have "\<lfloor>y\<rfloor> + 1 \<le> 2 ^ nat (j + 1)" by simp
  then have "rat_of_int (\<lfloor>y\<rfloor> + 1) \<le> rat_of_int (2 ^ nat (j + 1))" by (simp only: of_int_le_iff)
  moreover have "y < rat_of_int (\<lfloor>y\<rfloor> + 1)" by simp linarith
  ultimately have "y < rat_of_int (2 ^ nat (j + 1))" by linarith
  then show "y < pow2 (j + 1)" using j by (simp add: pow2_nat)
qed

text \<open>\<open>f32_exponent\<close> is the binary exponent of every positive number.\<close>

lemma f32_exponent_bounds:
  assumes "0 < x"
  shows "pow2 (f32_exponent x) \<le> x \<and> x < pow2 (f32_exponent x + 1)"
proof (cases "1 \<le> x")
  case True
  with bitlen_floor_bounds [OF True] show ?thesis
    by (simp add: f32_exponent_def)
next
  case False
  define j where "j = bitlen \<lfloor>1 / x\<rfloor> - 1"
  have y: "1 \<le> 1 / x" using assms False by simp
  note b = bitlen_floor_bounds [OF y, folded j_def]
  have pj: "0 < pow2 j" by (rule pow2_pos)
  have lo: "x \<le> 1 / pow2 j"
    using b(2) assms pj by (simp add: field_simps)
  have hi: "1 / pow2 (j + 1) < x"
    using b(3) assms pow2_pos [of "j + 1"] by (simp add: field_simps)
  show ?thesis
  proof (cases "x * pow2 j = 1")
    case True
    then have x: "x = pow2 (- j)" using pj by (simp add: pow2_neg field_simps)
    have e: "f32_exponent x = - j"
      using False True by (simp add: f32_exponent_def j_def)
    have "pow2 (- j + 1) = 2 * pow2 (- j)" by (rule pow2_Suc)
    then have "pow2 (- j) < pow2 (- j + 1)"
      using pow2_pos [of "- j"] by simp
    then have "pow2 (- j) \<le> x \<and> x < pow2 (- j + 1)" by (simp add: x)
    then show ?thesis by (simp only: e)
  next
    case neq: False
    have e: "f32_exponent x = - j - 1"
      using False neq by (simp add: f32_exponent_def j_def Let_def)
    have "x \<noteq> 1 / pow2 j" using neq pj by (auto simp: field_simps)
    with lo have "x < pow2 (- j)" by (simp add: pow2_neg)
    moreover have "pow2 (- j - 1) < x"
      using hi pow2_neg [of "j + 1"] by simp
    ultimately have "pow2 (- j - 1) \<le> x \<and> x < pow2 (- j - 1 + 1)" by simp
    then show ?thesis by (simp only: e)
  qed
qed

text \<open>
  The rounding on known values: the \<^verbatim>\<open>float\<close> nearest to one tenth, and two ties
  between neighbours above \<open>2 ^ 24\<close>, which go to the even significand.
\<close>

lemma f32_round_examples:
  "f32_round (1 / 10) = 13421773 / 134217728"
  "f32_round 16777217 = 16777216"
  "f32_round 16777219 = 16777220"
  "f32_round (- 16777219) = - 16777220"
  by (simp_all add: f32_eval)

lemma f32_exponent_le:
  assumes "1 \<le> x"
  shows "pow2 (f32_exponent x) \<le> x" and "0 \<le> f32_exponent x"
proof -
  have n: "0 < \<lfloor>x\<rfloor>" using assms by simp
  have b: "1 \<le> bitlen \<lfloor>x\<rfloor>"
    using n bitlen_eq_zero_iff [of "\<lfloor>x\<rfloor>"] bitlen_nonneg [of "\<lfloor>x\<rfloor>"] by linarith
  show "0 \<le> f32_exponent x" using assms b by (simp add: f32_exponent_def)
  have "(2::int) ^ nat (bitlen \<lfloor>x\<rfloor> - 1) \<le> \<lfloor>x\<rfloor>"
    using bitlen_bounds [OF n] by simp
  then have "rat_of_int (2 ^ nat (bitlen \<lfloor>x\<rfloor> - 1)) \<le> of_int \<lfloor>x\<rfloor>"
    by (simp only: of_int_le_iff)
  also have "\<dots> \<le> x" by simp
  finally show "pow2 (f32_exponent x) \<le> x"
    using assms b by (simp add: f32_exponent_def pow2_def)
qed

text \<open>Rounding moves a number of at least one by at most the fraction \<open>2 ^ - 24\<close> of it.\<close>

lemma f32_round_error:
  assumes "1 \<le> x"
  shows "\<bar>f32_round x - x\<bar> \<le> x / 2 ^ 24"
proof -
  define e where "e = f32_exponent x"
  define ulp where "ulp = pow2 (e - 23)"
  have e: "pow2 e \<le> x" "0 \<le> e"
    using f32_exponent_le [OF assms] by (simp_all add: e_def)
  have ulp_pos: "0 < ulp" by (simp add: ulp_def pow2_pos)
  have ulp: "ulp = pow2 e / 2 ^ 23"
    by (simp add: ulp_def pow2_diff) (simp add: pow2_def)
  have fl: "f32_round x = of_int (rne (x / ulp)) * ulp"
    using assms e by (simp add: f32_round_def Let_def ulp_def e_def max_def)
  have "f32_round x - x = (of_int (rne (x / ulp)) - x / ulp) * ulp"
    using ulp_pos by (simp add: fl field_simps)
  then have "\<bar>f32_round x - x\<bar> = \<bar>of_int (rne (x / ulp)) - x / ulp\<bar> * ulp"
    using ulp_pos by (simp add: abs_mult)
  also have "\<dots> \<le> (1 / 2) * ulp"
    using rne_error [of "x / ulp"] ulp_pos by (intro mult_right_mono) simp_all
  also have "\<dots> = pow2 e / 2 ^ 24" by (simp add: ulp)
  also have "\<dots> \<le> x / 2 ^ 24" using e by (simp add: divide_right_mono)
  finally show ?thesis .
qed

lemma f32_round_near:
  assumes "1 \<le> x" "x \<le> 2048"
  shows "\<bar>f32_round x - x\<bar> \<le> 1 / 8192"
proof -
  have "\<bar>f32_round x - x\<bar> \<le> x / 2 ^ 24" by (rule f32_round_error [OF assms(1)])
  also have "\<dots> \<le> 2048 / 2 ^ 24" using assms(2) by (simp add: divide_right_mono)
  also have "\<dots> = 1 / 8192" by simp
  finally show ?thesis .
qed

text \<open>An integer below \<open>2 ^ 24\<close> is a \<^verbatim>\<open>float\<close>: its conversion is exact.\<close>

lemma f32_of_int_exact:
  assumes "0 \<le> n" "n < 2 ^ 24"
  shows "f32_of_int n = of_int n"
proof (cases "n = 0")
  case True
  then show ?thesis by (simp add: f32_of_int_def f32_round_def)
next
  case False
  with assms have n: "0 < n" by simp
  define e where "e = bitlen n - 1"
  have b: "1 \<le> bitlen n"
    using n bitlen_eq_zero_iff [of n] bitlen_nonneg [of n] by linarith
  have "bitlen n \<le> 24"
    using assms n by (simp add: bitlen_le_iff_power)
  then have e: "0 \<le> e" "e \<le> 23" using b by (simp_all add: e_def)
  have ex: "f32_exponent (rat_of_int n) = e"
    using n by (simp add: f32_exponent_def e_def)
  have ab: "\<bar>rat_of_int n\<bar> = rat_of_int n" using n by simp
  have ulp: "pow2 (e - 23) = 1 / 2 ^ nat (23 - e)"
    using e by (cases "e = 23") (simp_all add: pow2_def)
  have "rat_of_int n / pow2 (e - 23) = of_int (n * 2 ^ nat (23 - e))"
    by (simp add: ulp)
  then have r: "rne (rat_of_int n / pow2 (e - 23)) = n * 2 ^ nat (23 - e)"
    by (simp only: rne_of_int)
  have "f32_round (rat_of_int n) = of_int (rne (rat_of_int n / pow2 (e - 23))) * pow2 (e - 23)"
    using n e by (simp add: f32_round_def Let_def ab ex max_def)
  also have "\<dots> = rat_of_int n" by (simp add: r) (simp add: ulp)
  finally show ?thesis by (simp add: f32_of_int_def)
qed

lemma uint_u16_of_int:
  "0 \<le> k \<Longrightarrow> k \<le> 65535 \<Longrightarrow> uint (word_of_int k :: u16) = k"
  by (simp add: uint_word_of_int_eq take_bit_int_eq_self)

lemma f32_to_u16_floor:
  "0 \<le> \<lfloor>x\<rfloor> \<Longrightarrow> \<lfloor>x\<rfloor> \<le> 65535 \<Longrightarrow> f32_to_u16 x = Inr (word_of_int \<lfloor>x\<rfloor>)"
  by (simp add: f32_to_u16_def f32_truncate_def)

text \<open>
  The two conversions on integers: \<open>b\<close> is the \<^verbatim>\<open>float\<close> \<^verbatim>\<open>rcToUs\<close> casts, \<open>c\<close> the one
  \<^verbatim>\<open>usToRc\<close> casts when it is given the integer part of \<open>b\<close>.
\<close>

lemma roundtrip_int:
  fixes n :: int
  assumes n: "172 \<le> n" "n \<le> 1811"
  defines "b \<equiv> f32_add (f32_mul (f32_of_int n) f32_scale) (f32_of_int 881)"
  defines "c \<equiv> f32_div (f32_of_int (\<lfloor>b\<rfloor> - 881)) f32_scale"
  shows "988 \<le> \<lfloor>b\<rfloor>" "\<lfloor>b\<rfloor> \<le> 2013" "n - 2 \<le> \<lfloor>c\<rfloor>" "\<lfloor>c\<rfloor> \<le> n"
proof -
  define S :: rat where "S = 10481921 / 16777216"
  define p where "p = rat_of_int n * S"
  define a where "a = f32_round p"
  define m where "m = rat_of_int (\<lfloor>b\<rfloor> - 881)"
  define d where "d = m / S"
  have n': "172 \<le> rat_of_int n" "rat_of_int n \<le> 1811"
    using n by simp_all
  have p: "429 / 4 \<le> p" "p \<le> 1132" using n' by (simp_all add: p_def S_def)
  have "\<bar>a - p\<bar> \<le> 1 / 8192"
    unfolding a_def using p by (intro f32_round_near) simp_all
  then have a: "a \<le> p + 1 / 8192" "p - 1 / 8192 \<le> a" by linarith+
  have b_eq: "b = f32_round (a + 881)"
    using n by (simp add: b_def f32_add_def f32_mul_def f32_of_int_exact f32_scale_value
        a_def p_def S_def)
  have "1 \<le> a + 881" "a + 881 \<le> 2048" using p a by linarith+
  then have "\<bar>b - (a + 881)\<bar> \<le> 1 / 8192"
    unfolding b_eq by (rule f32_round_near)
  then have b: "b \<le> a + 881 + 1 / 8192" "a + 881 - 1 / 8192 \<le> b" by linarith+
  have fb: "rat_of_int \<lfloor>b\<rfloor> \<le> b" "b < rat_of_int \<lfloor>b\<rfloor> + 1"
    by linarith+
  have "988 \<le> b" "b < 2014" using p a b by linarith+
  then show u: "988 \<le> \<lfloor>b\<rfloor>" "\<lfloor>b\<rfloor> \<le> 2013"
    by (simp_all add: le_floor_iff floor_le_iff)
  have c_eq: "c = f32_round d"
    using u by (simp add: c_def f32_div_def f32_of_int_exact f32_scale_value d_def m_def S_def)
  have m_eq: "m = rat_of_int \<lfloor>b\<rfloor> - 881" by (simp add: m_def)
  have m: "m \<le> rat_of_int n * S + 2 / 8192" "rat_of_int n * S - 1 - 2 / 8192 < m"
    using fb a b unfolding m_eq p_def by linarith+
  have d_eq: "d = m * (16777216 / 10481921)" by (simp add: d_def S_def)
  have d: "d \<le> rat_of_int n + 1 / 2" "rat_of_int n - 2 + 1 / 8192 \<le> d"
    using m unfolding d_eq S_def by linarith+
  have "1 \<le> d" "d \<le> 2048" using d n' by linarith+
  then have "\<bar>c - d\<bar> \<le> 1 / 8192"
    unfolding c_eq by (rule f32_round_near)
  then have "rat_of_int n - 2 \<le> c" "c < rat_of_int n + 1"
    using d by linarith+
  then have "rat_of_int (n - 2) \<le> c" "c < rat_of_int (n + 1)"
    by simp_all
  then show "n - 2 \<le> \<lfloor>c\<rfloor>" "\<lfloor>c\<rfloor> \<le> n"
    by (simp_all add: le_floor_iff floor_le_iff)
qed

section \<open>Unit conversion: the round trip\<close>

text \<open>
  The three pairs the comment in \<^verbatim>\<open>readRcChannel\<close> gives: 172 is 988 microseconds, 992
  is 1500 and 1811 is 2012.
\<close>

lemma rcToUs_anchors: "rcToUs 172 = Inr 988" "rcToUs 992 = Inr 1500" "rcToUs 1811 = Inr 2012"
  by (simp_all add: rcToUs_def f32_scale_value f32_eval)

text \<open>
  C1, as the code has it. For every protocol value \<open>v\<close> from 172 to 1811 both
  conversions are defined, and \<^verbatim>\<open>usToRc(rcToUs(v))\<close> is \<open>v\<close>, \<open>v - 1\<close> or \<open>v - 2\<close>: the
  round trip recovers \<open>v\<close> within 2 units, and never exceeds it.
\<close>

theorem rc_us_roundtrip_within_two:
  fixes v :: u16
  assumes "172 \<le> v" "v \<le> 1811"
  shows "\<exists>us r. rcToUs v = Inr us \<and> usToRc us = Inr r
           \<and> uint v - 2 \<le> uint r \<and> uint r \<le> uint v"
proof -
  define b where "b = f32_add (f32_mul (f32_of_int (uint v)) f32_scale) (f32_of_int 881)"
  define c where "c = f32_div (f32_of_int (\<lfloor>b\<rfloor> - 881)) f32_scale"
  have n: "172 \<le> uint v" "uint v \<le> 1811"
    using assms by (simp_all add: word_le_def)
  note rt = roundtrip_int [OF n, folded b_def, folded c_def]
  have us: "rcToUs v = Inr (word_of_int \<lfloor>b\<rfloor>)"
    unfolding rcToUs_def b_def [symmetric] using rt(1,2) by (intro f32_to_u16_floor) linarith+
  have ub: "uint (word_of_int \<lfloor>b\<rfloor> :: u16) = \<lfloor>b\<rfloor>"
    using rt(1,2) by (intro uint_u16_of_int) linarith+
  have r: "usToRc (word_of_int \<lfloor>b\<rfloor>) = Inr (word_of_int \<lfloor>c\<rfloor>)"
    unfolding usToRc_def ub c_def [symmetric] using rt(3,4) n by (intro f32_to_u16_floor) linarith+
  have uc: "uint (word_of_int \<lfloor>c\<rfloor> :: u16) = \<lfloor>c\<rfloor>"
    using rt(3,4) n by (intro uint_u16_of_int) linarith+
  show ?thesis using us r uc rt(3,4) by simp
qed

theorem rc_us_roundtrip_within_two_witness:
  "(172 :: u16) \<le> 1811 \<and> rcToUs 1811 = Inr 2012 \<and> usToRc 2012 = Inr 1810
     \<and> uint (1811 :: u16) - 2 \<le> uint (1810 :: u16) \<and> uint (1810 :: u16) \<le> uint (1811 :: u16)"
proof -
  have v: "(172 :: u16) \<le> 1811" "(1811 :: u16) \<le> 1811" by simp_all
  have us: "rcToUs 1811 = Inr 2012"
    by (simp add: rcToUs_def f32_scale_value f32_eval)
  have r: "usToRc 2012 = Inr 1810"
    by (simp add: usToRc_def f32_scale_value f32_eval)
  from rc_us_roundtrip_within_two [OF v] us r show ?thesis by simp
qed

text \<open>
  C1, as the specification has it, fails at the centre of the range: 992 is converted
  to 1500, and 1500 back to 990, which is 2 units away.
\<close>

theorem rc_us_roundtrip_off_by_two:
  "rcToUs 992 = Inr 1500 \<and> usToRc 1500 = Inr 990
     \<and> \<not> \<bar>uint (990 :: u16) - uint (992 :: u16)\<bar> \<le> 1"
  by (simp add: rcToUs_def usToRc_def f32_scale_value f32_eval)

section \<open>Reading channels\<close>

lemmas example_defs = example_receiver_def example_config_def example_engines_def
  example_port_def SerialReceiver_new_def setRcChannelsCallback_def
  setLinkStatisticsCallback_def setFlightModeCallback_def

lemma readRcChannel_zero:
  assumes "unat ch < length (value_rc (rcChannels s))" "ch \<le> 15"
    and "value_rc (rcChannels s) ! unat ch = 0"
  shows "readRcChannel s ch False = Inr (881, s)"
  using assms by (simp add: readRcChannel_def f32_scale_value f32_eval)

lemma unat_le_15: "(ch :: u8) \<le> 15 \<Longrightarrow> unat ch < 16"
  by (simp add: word_le_nat_alt)

text \<open>
  C10. A receiver that was just constructed holds 16 channel values, all 0, and both
  flags are false; for every channel up to 15 the raw read gives 0, below the protocol
  minimum 172, and the converted read gives 881, below 988.
\<close>

theorem constructed_snapshot:
  fixes ch :: u8 and cfg :: config and port :: uart
  defines "s \<equiv> (SerialReceiver_new cfg port :: ('d, 't, 'l) receiver)"
  shows "value_rc (rcChannels s) = replicate 16 0
       \<and> \<not> valid (rcChannels s) \<and> \<not> failsafe (rcChannels s)
       \<and> (ch \<le> 15 \<longrightarrow>
            readRcChannel s ch True = Inr (0, s) \<and> (0 :: u16) < 172
          \<and> readRcChannel s ch False = Inr (881, s) \<and> (881 :: u16) < 988)"
proof -
  have v: "value_rc (rcChannels s) = replicate 16 0"
    and f: "\<not> valid (rcChannels s)" "\<not> failsafe (rcChannels s)"
    by (simp_all add: s_def SerialReceiver_new_def RC_CHANNEL_COUNT_def)
  have "readRcChannel s ch True = Inr (0, s)" "readRcChannel s ch False = Inr (881, s)"
    if "ch \<le> 15"
  proof -
    have n: "unat ch < 16" using that by (rule unat_le_15)
    then have z: "value_rc (rcChannels s) ! unat ch = 0" by (simp add: v)
    show "readRcChannel s ch True = Inr (0, s)"
      using that n z by (simp add: readRcChannel_def v)
    show "readRcChannel s ch False = Inr (881, s)"
      using that n z by (intro readRcChannel_zero) (simp_all add: v)
  qed
  with v f show ?thesis by simp
qed

theorem constructed_snapshot_witness:
  "(3 :: u8) \<le> 15
   \<and> readRcChannel (SerialReceiver_new example_config example_port :: (nat, unit, nat) receiver)
         3 True
       = Inr (0, SerialReceiver_new example_config example_port)
   \<and> readRcChannel (SerialReceiver_new example_config example_port :: (nat, unit, nat) receiver)
         3 False
       = Inr (881, SerialReceiver_new example_config example_port)"
  using constructed_snapshot [of example_config example_port 3, where ?'d = nat and ?'t = unit and ?'l = nat]
  by simp

text \<open>
  C9. For a channel index above 15 \<^verbatim>\<open>readRcChannel\<close> returns 0, raw or not, and the
  receiver is as it was; for an index up to 15 the raw read returns the stored value
  (the snapshot holding its 16 values).
\<close>

theorem readRcChannel_range:
  "(15 < ch \<longrightarrow> readRcChannel s ch raw = Inr (0, s))
   \<and> (ch \<le> 15 \<and> length (value_rc (rcChannels s)) = RC_CHANNEL_COUNT \<longrightarrow>
        readRcChannel s ch True = Inr (value_rc (rcChannels s) ! unat ch, s))"
  using unat_le_15 [of ch]
  by (auto simp: readRcChannel_def RC_CHANNEL_COUNT_def not_le [symmetric])

theorem readRcChannel_range_witness:
  "(15 :: u8) < 16
   \<and> readRcChannel example_receiver 16 True = Inr (0, example_receiver)
   \<and> readRcChannel example_receiver 16 False = Inr (0, example_receiver)
   \<and> (7 :: u8) \<le> 15
   \<and> length (value_rc (rcChannels example_receiver)) = RC_CHANNEL_COUNT
   \<and> readRcChannel example_receiver 7 True
       = Inr (value_rc (rcChannels example_receiver) ! unat (7 :: u8), example_receiver)"
proof -
  have a: "(15 :: u8) < 16" and b: "(7 :: u8) \<le> 15" by simp_all
  have l: "length (value_rc (rcChannels example_receiver)) = RC_CHANNEL_COUNT"
    by (simp add: example_defs)
  show ?thesis
    using a b l readRcChannel_range [of 16 example_receiver True]
      readRcChannel_range [of 16 example_receiver False]
      readRcChannel_range [of 7 example_receiver True]
    by simp
qed

section \<open>The flight-mode table\<close>

text \<open>
  C8. With the table as the constructor allocated it: a call with an identifier below
  \<^verbatim>\<open>FLIGHT_MODE_COUNT\<close> and a channel up to 15 returns true and stores the entry at the
  index of the identifier, every other entry and the rest of the receiver unchanged; a
  second such call with the same identifier leaves the table that this call alone would
  have left. Every other call returns false and leaves the receiver unchanged.
\<close>

theorem setFlightMode_stores_or_rejects:
  assumes "length (flightModes s) = FLIGHT_MODE_COUNT cfg"
  shows "(i < FLIGHT_MODE_COUNT cfg \<and> ch \<le> 15 \<longrightarrow>
            (\<exists>s'. setFlightMode cfg s i ch mn mx = Inr (True, s')
               \<and> s' = s\<lparr>flightModes := flightModes s'\<rparr>
               \<and> length (flightModes s') = FLIGHT_MODE_COUNT cfg
               \<and> flightModes s' ! i = Some \<lparr>channel = ch, min_rc = mn, max_rc = mx\<rparr>
               \<and> (\<forall>j. j \<noteq> i \<longrightarrow> flightModes s' ! j = flightModes s ! j)
               \<and> (\<forall>ch' mn' mx'. ch' \<le> 15 \<longrightarrow>
                     setFlightMode cfg s' i ch' mn' mx' = setFlightMode cfg s i ch' mn' mx')))
       \<and> (\<not> (i < FLIGHT_MODE_COUNT cfg \<and> ch \<le> 15) \<longrightarrow>
            setFlightMode cfg s i ch mn mx = Inr (False, s))"
  using assms by (auto simp: setFlightMode_def)

theorem setFlightMode_stores_or_rejects_witness:
  "length (flightModes example_receiver) = FLIGHT_MODE_COUNT example_config
   \<and> (\<exists>s'. setFlightMode example_config example_receiver 2 4 1000 1400 = Inr (True, s')
         \<and> flightModes s' ! 2 = Some \<lparr>channel = 4, min_rc = 1000, max_rc = 1400\<rparr>
         \<and> setFlightMode example_config s' 2 5 172 900
             = setFlightMode example_config example_receiver 2 5 172 900)
   \<and> setFlightMode example_config example_receiver 9 4 1000 1400 = Inr (False, example_receiver)
   \<and> setFlightMode example_config example_receiver 2 16 1000 1400 = Inr (False, example_receiver)"
proof -
  have l: "length (flightModes example_receiver) = FLIGHT_MODE_COUNT example_config"
    by (simp add: example_defs)
  have c: "(2 :: nat) < FLIGHT_MODE_COUNT example_config" "\<not> (9 :: nat) < FLIGHT_MODE_COUNT example_config"
    "(4 :: u8) \<le> 15" "(5 :: u8) \<le> 15" "\<not> (16 :: u8) \<le> 15"
    by (simp_all add: example_config_def)
  from setFlightMode_stores_or_rejects [OF l, of 2 4 1000 1400] c
  obtain s' where s': "setFlightMode example_config example_receiver 2 4 1000 1400 = Inr (True, s')"
      "flightModes s' ! 2 = Some \<lparr>channel = 4, min_rc = 1000, max_rc = 1400\<rparr>"
      "setFlightMode example_config s' 2 5 172 900
         = setFlightMode example_config example_receiver 2 5 172 900"
    by blast
  have r1: "setFlightMode example_config example_receiver 9 4 1000 1400
              = Inr (False, example_receiver)"
    using setFlightMode_stores_or_rejects [OF l, of 9 4 1000 1400] c by blast
  have r2: "setFlightMode example_config example_receiver 2 16 1000 1400
              = Inr (False, example_receiver)"
    using setFlightMode_stores_or_rejects [OF l, of 2 16 1000 1400] c by blast
  show ?thesis using l s' r1 r2 by blast
qed

section \<open>The armed flag of the flight-mode telemetry\<close>

text \<open>
  C3, on the code. Through a live telemetry engine \<^verbatim>\<open>telemetryWriteFlightMode\<close> calls
  the setter once, and the flag it passes as \<^verbatim>\<open>armed\<close> is true exactly when the
  identifier is \<^verbatim>\<open>FLIGHT_MODE_DISARMED\<close>: the flag is "disarmed", not its complement.
\<close>

theorem telemetryWriteFlightMode_passes_disarmed:
  assumes "telemetry s = Live t"
  shows "\<exists>s'. telemetryWriteFlightMode E cfg s i
           = Inr (s', [TelemetrySet (SetFlightModeData (flightModeString cfg i)
                                      (i = FLIGHT_MODE_DISARMED cfg))])"
  using assms by (simp add: telemetryWriteFlightMode_def telemetry_forward_def Let_def)

theorem telemetryWriteFlightMode_passes_disarmed_witness:
  "telemetry (example_receiver\<lparr>telemetry := Live ()\<rparr>) = Live ()
   \<and> (\<exists>s'. telemetryWriteFlightMode example_engines example_config
               (example_receiver\<lparr>telemetry := Live ()\<rparr>) 0
            = Inr (s', [TelemetrySet (SetFlightModeData ''ACRO'' True)]))"
proof -
  have l: "telemetry (example_receiver\<lparr>telemetry := Live ()\<rparr>) = Live ()" by simp
  show ?thesis
    using l telemetryWriteFlightMode_passes_disarmed [OF l, of example_engines example_config 0]
    by (simp add: flightModeString_def example_config_def)
qed

section \<open>Facts about the port\<close>

lemma pending_available [simp]: "pending (snd (uart_available u)) = pending u"
  by (simp add: uart_available_def pending_def split: list.split)

lemma uart_read_cons:
  assumes "rx v = b # bs"
  shows "uart_read v = (uint b, v\<lparr>rx := bs\<rparr>)"
  using assms by (simp add: uart_read_def)

lemma rx_available_append: "\<exists>bs. rx (snd (uart_available u)) = rx u @ bs"
  by (simp add: uart_available_def split: list.split)

lemma available_zero: "\<not> 0 < fst (uart_available u) \<Longrightarrow> rx (snd (uart_available u)) = []"
  by (auto simp: uart_available_def split: list.splits)

lemma drain_stop:
  "\<not> 0 < fst (uart_available u) \<Longrightarrow> drain u = (snd (uart_available u), [])"
  by (subst drain.simps) simp

lemma drain_step:
  assumes "0 < fst (uart_available u)" and "rx (snd (uart_available u)) = b # bs"
  shows "drain u = (fst (drain (snd (uart_available u)\<lparr>rx := bs\<rparr>)),
                    uint b # snd (drain (snd (uart_available u)\<lparr>rx := bs\<rparr>)))"
  using assms by (subst drain.simps) (simp add: uart_read_cons split: prod.split)

text \<open>
  The loop drops what was buffered when it started, then what arrived meanwhile, and
  leaves the buffer empty; what it did not drop is still to arrive.
\<close>

lemma drain_pending:
  "\<exists>late. snd (drain u) = map uint (rx u @ late)
        \<and> pending u = rx u @ late @ pending (fst (drain u))
        \<and> rx (fst (drain u)) = []"
proof (induction u rule: drain.induct)
  case (1 u)
  let ?u1 = "snd (uart_available u)"
  obtain bs where bs: "rx ?u1 = rx u @ bs"
    using rx_available_append by blast
  show ?case
  proof (cases "0 < fst (uart_available u)")
    case False
    then have e: "rx ?u1 = []" by (rule available_zero)
    with bs have "rx u = []" by simp
    moreover have "pending ?u1 = pending u" by simp
    ultimately show ?thesis
      using False e by (simp add: drain_stop)
  next
    case True
    then obtain b rest where r: "rx ?u1 = b # rest"
      using rx_available [OF True] by (cases "rx ?u1") auto
    let ?u' = "?u1\<lparr>rx := rest\<rparr>"
    have rd: "(uint b, ?u') = uart_read ?u1"
      using r by (simp add: uart_read_cons)
    from "1.IH" [OF True rd]
    obtain late where l: "snd (drain ?u') = map uint (rx ?u' @ late)"
      "pending ?u' = rx ?u' @ late @ pending (fst (drain ?u'))"
      "rx (fst (drain ?u')) = []"
      by blast
    have d: "drain u = (fst (drain ?u'), uint b # snd (drain ?u'))"
      using True r by (rule drain_step)
    have p: "pending u = b # pending ?u'"
      using r pending_available [of u] by (simp add: pending_def)
    have rb: "rx u @ bs = b # rest" using r bs by simp
    have "snd (drain u) = map uint ((b # rest) @ late)"
      using d l(1) by simp
    then have "snd (drain u) = map uint (rx u @ (bs @ late))"
      by (simp only: rb [symmetric] append_assoc)
    moreover have "pending u = (b # rest) @ late @ pending (fst (drain u))"
      using d p l(2) by simp
    then have "pending u = rx u @ (bs @ late) @ pending (fst (drain u))"
      by (simp only: rb [symmetric] append_assoc)
    moreover have "rx (fst (drain u)) = []"
      using d l(3) by simp
    ultimately show ?thesis by blast
  qed
qed

section \<open>Facts about the poll routine\<close>

lemma fed_append [simp]: "fed (xs @ ys) = fed xs @ fed ys"
  by (induction xs rule: fed.induct) simp_all

lemma fed_Discarded [simp]: "fed (map Discarded cs) = []"
  by (induction cs) simp_all

lemma fed_frame_work: "list_all is_frame_work w \<Longrightarrow> fed w = []"
  by (induction w rule: fed.induct) simp_all

lemma publish_Discarded [simp]: "filter is_publish (map Discarded cs) = []"
  by (induction cs) simp_all

lemma publish_frame_work: "list_all is_frame_work w \<Longrightarrow> filter is_publish w = []"
  by (induction w) (auto elim: is_frame_work.elims)

text \<open>What the handling of a completed frame does, when it returns.\<close>

lemma frame_result:
  assumes "processFrames_frame E cfg d s = Inr (s', ev)"
  shows "\<exists>work. ev = UartFlush # map Discarded (snd (drain (uart s))) @ work
           \<and> list_all is_frame_work work
           \<and> uart s' = fst (drain (uart s))
           \<and> crsf s' = crsf s
           \<and> rcChannels s' = rcChannels s
           \<and> rcChannelsCallback s' = rcChannelsCallback s
           \<and> (\<forall>t. telemetry s = Live t \<longrightarrow> (\<exists>t'. telemetry s' = Live t'))
           \<and> (\<not> CRSF_TELEMETRY_ENABLED cfg \<longrightarrow> telemetry s' = telemetry s)"
  using assms
  by (auto simp: processFrames_frame_def flushRemainingFrames_def Let_def
      split: prod.splits if_splits ptr.splits bool.splits option.splits)

lemma frame_defined:
  assumes "CRSF_TELEMETRY_ENABLED cfg \<Longrightarrow> \<exists>t. telemetry s = Live t"
  shows "\<exists>s' ev. processFrames_frame E cfg d s = Inr (s', ev)"
proof (cases "CRSF_TELEMETRY_ENABLED cfg")
  case True
  with assms obtain t where "telemetry s = Live t" by blast
  with True show ?thesis
    by (auto simp: processFrames_frame_def flushRemainingFrames_def Let_def
        split: prod.splits bool.splits)
next
  case False
  then show ?thesis
    by (auto simp: processFrames_frame_def flushRemainingFrames_def Let_def
        split: prod.splits)
qed

lemma loop_stop:
  assumes "\<not> 0 < fst (uart_available (uart s))"
  shows "processFrames_loop E cfg s = Inr (s\<lparr>uart := snd (uart_available (uart s))\<rparr>, [])"
  using assms by (subst processFrames_loop.simps) simp

lemma loop_frame:
  assumes "0 < fst (uart_available (uart s))"
    and "uart_read (snd (uart_available (uart s))) = (c, u)"
    and "crsf s = Live d"
    and "receiveFrames E d (word_of_int c) = (True, d')"
  shows "processFrames_loop E cfg s =
           (case processFrames_frame E cfg d' (s\<lparr>uart := u, crsf := Live d'\<rparr>) of
              Inl f \<Rightarrow> Inl f
            | Inr (s1, ev1) \<Rightarrow>
                (case processFrames_loop E cfg s1 of
                   Inl f \<Rightarrow> Inl f
                 | Inr (s', ev2) \<Rightarrow> Inr (s', Fed (word_of_int c) True # ev1 @ ev2)))"
  using assms by (subst processFrames_loop.simps) simp

lemma loop_skip:
  assumes "0 < fst (uart_available (uart s))"
    and "uart_read (snd (uart_available (uart s))) = (c, u)"
    and "crsf s = Live d"
    and "receiveFrames E d (word_of_int c) = (False, d')"
  shows "processFrames_loop E cfg s =
           (case processFrames_loop E cfg (s\<lparr>uart := u, crsf := Live d'\<rparr>) of
              Inl f \<Rightarrow> Inl f
            | Inr (s', ev2) \<Rightarrow> Inr (s', Fed (word_of_int c) False # ev2))"
  using assms by (subst processFrames_loop.simps) simp

lemma loop_fault:
  assumes "0 < fst (uart_available (uart s))" and "\<And>d. crsf s \<noteq> Live d"
  shows "\<exists>f. processFrames_loop E cfg s = Inl f"
  using assms
  by (subst processFrames_loop.simps) (auto split: prod.splits ptr.splits)

text \<open>The three ways in which the loop returns.\<close>

lemma loop_cases [consumes 1, case_names stop frame skip]:
  assumes "processFrames_loop E cfg s = Inr (s', ev)"
  obtains
    (stop) "\<not> 0 < fst (uart_available (uart s))"
      "s' = s\<lparr>uart := snd (uart_available (uart s))\<rparr>" "ev = []"
  | (frame) c u d d' s1 ev1 ev2 where
      "0 < fst (uart_available (uart s))"
      "uart_read (snd (uart_available (uart s))) = (c, u)"
      "crsf s = Live d"
      "receiveFrames E d (word_of_int c) = (True, d')"
      "processFrames_frame E cfg d' (s\<lparr>uart := u, crsf := Live d'\<rparr>) = Inr (s1, ev1)"
      "processFrames_loop E cfg s1 = Inr (s', ev2)"
      "ev = Fed (word_of_int c) True # ev1 @ ev2"
      "bytes_left (uart s1) < bytes_left (uart s)"
  | (skip) c u d d' ev2 where
      "0 < fst (uart_available (uart s))"
      "uart_read (snd (uart_available (uart s))) = (c, u)"
      "crsf s = Live d"
      "receiveFrames E d (word_of_int c) = (False, d')"
      "processFrames_loop E cfg (s\<lparr>uart := u, crsf := Live d'\<rparr>) = Inr (s', ev2)"
      "ev = Fed (word_of_int c) False # ev2"
      "bytes_left u < bytes_left (uart s)"
proof (cases "0 < fst (uart_available (uart s))")
  case False
  with assms loop_stop [OF False, of E cfg] show ?thesis by (intro stop) simp_all
next
  case True
  obtain c u where rd: "uart_read (snd (uart_available (uart s))) = (c, u)"
    by (cases "uart_read (snd (uart_available (uart s)))")
  have lt: "bytes_left u < bytes_left (uart s)"
    using bytes_left_read [OF True] rd by simp
  obtain d where d: "crsf s = Live d"
    using loop_fault [OF True, of E cfg] assms by (cases "crsf s") auto
  obtain fin d' where rf: "receiveFrames E d (word_of_int c) = (fin, d')"
    by (cases "receiveFrames E d (word_of_int c)")
  show ?thesis
  proof (cases fin)
    case True
    have rf': "receiveFrames E d (word_of_int c) = (True, d')" using rf True by simp
    note eq = loop_frame [OF \<open>0 < fst (uart_available (uart s))\<close> rd d rf', of cfg]
    from assms obtain s1 ev1 where
      fr: "processFrames_frame E cfg d' (s\<lparr>uart := u, crsf := Live d'\<rparr>) = Inr (s1, ev1)"
      unfolding eq by (auto split: sum.splits)
    from assms obtain ev2 where
      lp: "processFrames_loop E cfg s1 = Inr (s', ev2)"
        "ev = Fed (word_of_int c) True # ev1 @ ev2"
      unfolding eq fr by (auto split: sum.splits)
    have "bytes_left (uart s1) \<le> bytes_left u"
      using bytes_left_frame [OF fr] by simp
    with lt have "bytes_left (uart s1) < bytes_left (uart s)" by simp
    with \<open>0 < fst (uart_available (uart s))\<close> rd d rf' fr lp show ?thesis
      by (intro frame) simp_all
  next
    case False
    have rf': "receiveFrames E d (word_of_int c) = (False, d')" using rf False by simp
    note eq = loop_skip [OF \<open>0 < fst (uart_available (uart s))\<close> rd d rf', of cfg]
    from assms obtain ev2 where
      lp: "processFrames_loop E cfg (s\<lparr>uart := u, crsf := Live d'\<rparr>) = Inr (s', ev2)"
        "ev = Fed (word_of_int c) False # ev2"
      unfolding eq by (auto split: sum.splits)
    with \<open>0 < fst (uart_available (uart s))\<close> rd d rf' lt show ?thesis
      by (intro skip) simp_all
  qed
qed

lemma loop_keeps:
  assumes "processFrames_loop E cfg s = Inr (s', ev)"
  shows "rcChannels s' = rcChannels s \<and> rcChannelsCallback s' = rcChannelsCallback s
       \<and> filter is_publish ev = []"
  using assms
proof (induction "bytes_left (uart s)" arbitrary: s s' ev rule: less_induct)
  case less
  from less.prems show ?case
  proof (cases rule: loop_cases)
    case stop
    then show ?thesis by simp
  next
    case (frame c u d d' s1 ev1 ev2)
    from frame_result [OF frame(5)] obtain work where w:
      "ev1 = UartFlush # map Discarded (snd (drain u)) @ work" "list_all is_frame_work work"
      "rcChannels s1 = rcChannels s" "rcChannelsCallback s1 = rcChannelsCallback s"
      by auto
    from less.hyps [OF frame(8) frame(6)] w frame(7) show ?thesis
      by (simp add: publish_frame_work)
  next
    case (skip c u d d' ev2)
    from less.hyps [OF _ skip(5)] skip(6,7) show ?thesis by simp
  qed
qed

lemma loop_defined:
  assumes "ready cfg s"
  shows "\<exists>s' ev. processFrames_loop E cfg s = Inr (s', ev) \<and> ready cfg s'"
  using assms
proof (induction "bytes_left (uart s)" arbitrary: s rule: less_induct)
  case less
  from less.prems obtain d where d: "crsf s = Live d"
    and t: "CRSF_TELEMETRY_ENABLED cfg \<Longrightarrow> \<exists>t. telemetry s = Live t"
    by (auto simp: ready_def split: ptr.splits if_splits)
  show ?case
  proof (cases "0 < fst (uart_available (uart s))")
    case False
    with less.prems show ?thesis by (simp add: loop_stop ready_def)
  next
    case True
    obtain c u where rd: "uart_read (snd (uart_available (uart s))) = (c, u)"
      by (cases "uart_read (snd (uart_available (uart s)))")
    have lt: "bytes_left u < bytes_left (uart s)"
      using bytes_left_read [OF True] rd by simp
    obtain fin d' where rf: "receiveFrames E d (word_of_int c) = (fin, d')"
      by (cases "receiveFrames E d (word_of_int c)")
    let ?s = "s\<lparr>uart := u, crsf := Live d'\<rparr>"
    have r: "ready cfg ?s" using less.prems by (simp add: ready_def)
    show ?thesis
    proof (cases fin)
      case False
      with rf have rf': "receiveFrames E d (word_of_int c) = (False, d')" by simp
      from less.hyps [of ?s] lt r obtain s' ev where
        "processFrames_loop E cfg ?s = Inr (s', ev)" "ready cfg s'" by auto
      then show ?thesis by (simp add: loop_skip [OF True rd d rf'])
    next
      case True
      with rf have rf': "receiveFrames E d (word_of_int c) = (True, d')" by simp
      have "CRSF_TELEMETRY_ENABLED cfg \<Longrightarrow> \<exists>t. telemetry ?s = Live t" using t by simp
      from frame_defined [OF this] obtain s1 ev1 where
        fr: "processFrames_frame E cfg d' ?s = Inr (s1, ev1)" by blast
      have "bytes_left (uart s1) < bytes_left (uart s)"
        using bytes_left_frame [OF fr] lt by simp
      moreover have "ready cfg s1"
        using frame_result [OF fr] r by (auto simp: ready_def split: ptr.splits if_splits)
      ultimately obtain s' ev where
        "processFrames_loop E cfg s1 = Inr (s', ev)" "ready cfg s'"
        using less.hyps [of s1] by auto
      then show ?thesis
        by (simp add: loop_frame [OF \<open>0 < fst (uart_available (uart s))\<close> rd d rf'] fr)
    qed
  qed
qed

text \<open>The bytes the loop hands to the decoder are among those the port had or was to get.\<close>

lemma uart_read_pending:
  assumes "0 < fst (uart_available v)" and "uart_read (snd (uart_available v)) = (c, u)"
  shows "pending v = word_of_int c # pending u" and "c = uint (word_of_int c :: u8)"
proof -
  obtain b rest where r: "rx (snd (uart_available v)) = b # rest"
    using rx_available [OF assms(1)] by (cases "rx (snd (uart_available v))") auto
  with assms(2) have c: "c = uint b" and u: "u = snd (uart_available v)\<lparr>rx := rest\<rparr>"
    by (simp_all add: uart_read_cons)
  show "c = uint (word_of_int c :: u8)" by (simp add: c)
  have "pending (snd (uart_available v)) = b # pending u"
    using r u by (simp add: pending_def)
  then show "pending v = word_of_int c # pending u" by (simp add: c)
qed

lemma loop_fed:
  assumes "processFrames_loop E cfg s = Inr (s', ev)"
  shows "subseq (fed ev) (pending (uart s))"
  using assms
proof (induction "bytes_left (uart s)" arbitrary: s s' ev rule: less_induct)
  case less
  from less.prems show ?case
  proof (cases rule: loop_cases)
    case stop
    then show ?thesis by simp
  next
    case (frame c u d d' s1 ev1 ev2)
    from frame_result [OF frame(5)] obtain work where w:
      "ev1 = UartFlush # map Discarded (snd (drain u)) @ work" "list_all is_frame_work work"
      "uart s1 = fst (drain u)"
      by auto
    from drain_pending [of u] obtain late where
      p: "pending u = rx u @ late @ pending (uart s1)" using w(3) by auto
    have "subseq (pending (uart s1)) (rx u @ late @ pending (uart s1))"
      by (intro list_emb_append2) (rule subseq_order.refl)
    then have "subseq (pending (uart s1)) (pending u)"
      by (simp only: p)
    with less.hyps [OF frame(8) frame(6)] have "subseq (fed ev2) (pending u)"
      by (rule subseq_order.trans)
    then have "subseq (word_of_int c # fed ev2) (word_of_int c # pending u)"
      by (rule subseq_Cons2)
    moreover have "fed ev = word_of_int c # fed ev2"
      using frame(7) w(1,2) by (simp add: fed_frame_work)
    ultimately show ?thesis
      by (simp only: uart_read_pending(1) [OF frame(1,2)])
  next
    case (skip c u d d' ev2)
    have "subseq (fed ev2) (pending u)"
      using less.hyps [OF _ skip(5)] skip(7) by simp
    then have "subseq (word_of_int c # fed ev2) (word_of_int c # pending u)"
      by (rule subseq_Cons2)
    moreover have "fed ev = word_of_int c # fed ev2"
      using skip(6) by simp
    ultimately show ?thesis
      by (simp only: uart_read_pending(1) [OF skip(1,2)])
  qed
qed

section \<open>The example, evaluated\<close>

lemma example_begin:
  "SerialReceiver_begin example_engines example_config example_receiver
     = (True, example_begun, [UartBegin 420000, UartFlush])"
  by (simp add: example_begun_def example_defs SerialReceiver_begin_def flushRemainingFrames_def
      drain.simps uart_available_def uart_read_def RC_CHANNEL_COUNT_def Let_def)

lemma example_begun_eq:
  "example_begun =
     \<lparr> uart = \<lparr> rx = [], incoming = [[200, 7], [9], [], [], [5, 200]] \<rparr>,
       rcChannels = \<lparr> valid = False, failsafe = False,
                      value_rc = map (initialChannel example_config) [0..<16] \<rparr>,
       flightModes = replicate 9 None,
       crsf = Live 0,
       telemetry = Live (),
       linkStatistics = None,
       linkStatisticsCallback = Some 1,
       rcChannelsCallback = Some 2,
       flightModeCallback = None,
       flightModeStr = [] \<rparr>"
  by (simp add: example_begun_def example_defs SerialReceiver_begin_def flushRemainingFrames_def
      drain.simps uart_available_def uart_read_def RC_CHANNEL_COUNT_def Let_def)

lemma example_poll:
  "processFrames example_engines example_config example_begun
     = Inr (example_begun
              \<lparr> uart := \<lparr> rx = [], incoming = [] \<rparr>,
                crsf := Live 3,
                linkStatistics := Some 3,
                rcChannels := \<lparr> valid = False, failsafe = False,
                                value_rc = replicate 16 992 \<rparr> \<rparr>,
            [Fed 200 True, UartFlush, Discarded 7, Discarded 9,
             LinkStatisticsCallback 1 1, TelemetrySent,
             Fed 5 False, Fed 200 True, UartFlush,
             LinkStatisticsCallback 1 3, TelemetrySent,
             RcChannelsCallback 2
               \<lparr> valid = False, failsafe = False, value_rc = replicate 16 992 \<rparr>])"
  by (simp add: example_begun_eq example_config_def example_engines_def
      processFrames_def processFrames_frame_def flushRemainingFrames_def
      processFrames_loop.simps drain.simps uart_available_def uart_read_def
      RC_CHANNEL_COUNT_def Let_def map_replicate_const)

section \<open>The flight-mode scan\<close>

text \<open>
  When the first entry of the table names a channel other than 0, the scan stops at the
  read of \<^verbatim>\<open>_rcChannels[channel]\<close> behind the snapshot, whatever the channels hold.
\<close>

lemma handleFlightMode_first_entry:
  assumes "flightModeCallback s = Some cb" and "0 < FLIGHT_MODE_COUNT cfg"
    and "0 < length (flightModes s)" and "flightModes s ! 0 = Some m" and "channel m \<noteq> 0"
  shows "handleFlightMode cfg s = Inl OutOfBounds"
  using assms by (simp add: handleFlightMode_def upt_conv_Cons unat_eq_0)

text \<open>
  C2, on the code. The example receiver is begun, so channel 1 holds the centre value
  992; a callback is registered and entry 0 of the table names channel 1 with the range
  from 900 to 1100, which contains 992: the callback is due with identifier 0.
  \<^verbatim>\<open>handleFlightMode\<close> does not read channel 1 of the snapshot: it indexes the pointer to
  the snapshot with 1 and reads behind the structure, outside the allocation. What it
  does is the same when channel 1 holds 172, outside the range, and for all comparisons
  of a snapshot with a number: the stored value of the channel does not decide.
\<close>

theorem handleFlightMode_indexes_snapshot_pointer:
  "\<exists>s'. setFlightMode example_config (setFlightModeCallback example_begun (Some 3))
            0 1 900 1100 = Inr (True, s')
        \<and> flightModeCallback s' = Some 3
        \<and> flightModes s' ! 0 = Some \<lparr>channel = 1, min_rc = 900, max_rc = 1100\<rparr>
        \<and> value_rc (rcChannels s') ! 1 = 992 \<and> (900 :: u16) \<le> 992 \<and> (992 :: u16) \<le> 1100
        \<and> handleFlightMode (example_config\<lparr>rcChannels_ge := ge, rcChannels_le := le\<rparr>) s'
            = Inl OutOfBounds
        \<and> handleFlightMode (example_config\<lparr>rcChannels_ge := ge, rcChannels_le := le\<rparr>)
              (s'\<lparr>rcChannels := (rcChannels s')
                    \<lparr>value_rc := (value_rc (rcChannels s'))[1 := 172]\<rparr>\<rparr>)
            = Inl OutOfBounds"
proof -
  let ?s = "setFlightModeCallback example_begun (Some 3)"
  let ?m = "\<lparr>channel = 1, min_rc = 900, max_rc = 1100\<rparr>"
  let ?s' = "?s\<lparr>flightModes := (flightModes ?s)[0 := Some ?m]\<rparr>"
  let ?cfg = "example_config\<lparr>rcChannels_ge := ge, rcChannels_le := le\<rparr>"
  have set: "setFlightMode example_config ?s 0 1 900 1100 = Inr (True, ?s')"
    by (simp add: setFlightMode_def setFlightModeCallback_def example_begun_eq
        example_config_def)
  have cb: "flightModeCallback ?s' = Some 3"
    by (simp add: setFlightModeCallback_def)
  have len: "0 < length (flightModes ?s')"
    by (simp add: setFlightModeCallback_def example_begun_eq)
  have m: "flightModes ?s' ! 0 = Some ?m"
    by (simp add: setFlightModeCallback_def example_begun_eq)
  have v: "value_rc (rcChannels ?s') ! 1 = 992"
    by (simp add: setFlightModeCallback_def example_begun_eq initialChannel_def
        example_config_def)
  have n: "0 < FLIGHT_MODE_COUNT ?cfg" by (simp add: example_config_def)
  have c: "channel ?m \<noteq> 0" by simp
  have h1: "handleFlightMode ?cfg ?s' = Inl OutOfBounds"
    using cb n len m c by (rule handleFlightMode_first_entry)
  have h2: "handleFlightMode ?cfg
              (?s'\<lparr>rcChannels := (rcChannels ?s')
                     \<lparr>value_rc := (value_rc (rcChannels ?s'))[1 := 172]\<rparr>\<rparr>)
            = Inl OutOfBounds"
    using cb n len m c by (intro handleFlightMode_first_entry [where m = ?m]) simp_all
  have r: "(900 :: u16) \<le> 992" "(992 :: u16) \<le> 1100" by simp_all
  show ?thesis
    using set cb m v r h1 h2 by (intro exI [of _ ?s']) (simp only: simp_thms)
qed

section \<open>What a poll publishes and drops\<close>

text \<open>
  C6. With the engines constructed and an RC-channels callback registered,
  \<^verbatim>\<open>processFrames\<close> returns, and its last event is the one call of that callback in the
  whole trace, however many bytes were fed and frames completed before it. The callback
  gets the snapshot the receiver now holds, whose failsafe flag and channel values are
  those the decoder reports after the loop.
\<close>

theorem processFrames_publishes_once:
  assumes "ready cfg s" and "rcChannelsCallback s = Some cb"
  shows "\<exists>s' pre d. processFrames E cfg s = Inr (s', pre @ [RcChannelsCallback cb (rcChannels s')])
           \<and> filter is_publish pre = []
           \<and> crsf s' = Live d
           \<and> failsafe (rcChannels s') = getFailSafe E d
           \<and> value_rc (rcChannels s') = map (getRcChannels E d) [0..<RC_CHANNEL_COUNT]"
proof -
  from loop_defined [OF assms(1)] obtain s1 pre where
    l: "processFrames_loop E cfg s = Inr (s1, pre)" and r: "ready cfg s1"
    by blast
  from r obtain d where d: "crsf s1 = Live d"
    by (auto simp: ready_def split: ptr.splits)
  from loop_keeps [OF l] assms(2) have k: "rcChannelsCallback s1 = Some cb"
    "filter is_publish pre = []" by simp_all
  show ?thesis
    using l d k by (simp add: processFrames_def Let_def)
qed

theorem processFrames_publishes_once_witness:
  "ready example_config example_begun \<and> rcChannelsCallback example_begun = Some 2
   \<and> processFrames example_engines example_config example_begun
       = Inr (example_begun
                \<lparr> uart := \<lparr> rx = [], incoming = [] \<rparr>,
                  crsf := Live 3,
                  linkStatistics := Some 3,
                  rcChannels := \<lparr> valid = False, failsafe = False,
                                  value_rc = replicate 16 992 \<rparr> \<rparr>,
              [Fed 200 True, UartFlush, Discarded 7, Discarded 9,
               LinkStatisticsCallback 1 1, TelemetrySent,
               Fed 5 False, Fed 200 True, UartFlush,
               LinkStatisticsCallback 1 3, TelemetrySent]
              @ [RcChannelsCallback 2
                   \<lparr> valid = False, failsafe = False, value_rc = replicate 16 992 \<rparr>])"
proof -
  have r: "ready example_config example_begun"
    by (simp add: ready_def example_begun_eq example_config_def)
  have c: "rcChannelsCallback example_begun = Some 2"
    by (simp add: example_begun_eq)
  from processFrames_publishes_once [OF r c, of example_engines]
  obtain s' pre where "processFrames example_engines example_config example_begun
      = Inr (s', pre @ [RcChannelsCallback 2 (rcChannels s')])"
    by blast
  with r c show ?thesis by (simp add: example_poll)
qed

text \<open>
  C7. Every turn of the loop of \<^verbatim>\<open>processFrames\<close> is \<open>processFrames_loop\<close> at the state
  reached. Let the loop read a byte, leaving the port \<open>u\<close>, and let the decoder report a
  completed frame for it. Then the next events are the flush and the dropping of every
  byte in the buffer of \<open>u\<close>, in order, followed by the bytes \<open>late\<close> that arrive while
  the buffer is emptied; only then come the link-statistics callback and the telemetry
  transmission of this frame (\<open>work\<close>). The loop goes on with an empty buffer, and every
  byte handed to the decoder from then on is one of the bytes still to arrive.
\<close>

theorem processFrames_drops_backlog:
  assumes "0 < fst (uart_available (uart s))"
    and "uart_read (snd (uart_available (uart s))) = (c, u)"
    and "crsf s = Live d"
    and "receiveFrames E d (word_of_int c) = (True, d')"
    and "processFrames_loop E cfg s = Inr (s', ev)"
  shows "\<exists>late work s1 ev1.
           ev = Fed (word_of_int c) True # UartFlush
                  # map Discarded (map uint (rx u @ late)) @ work @ ev1
         \<and> list_all is_frame_work work
         \<and> pending u = rx u @ late @ concat (incoming (uart s1))
         \<and> rx (uart s1) = []
         \<and> processFrames_loop E cfg s1 = Inr (s', ev1)
         \<and> subseq (fed ev1) (concat (incoming (uart s1)))"
proof -
  note eq = loop_frame [OF assms(1-4), of cfg]
  from assms(5) obtain s1 evf where
    fr: "processFrames_frame E cfg d' (s\<lparr>uart := u, crsf := Live d'\<rparr>) = Inr (s1, evf)"
    unfolding eq by (auto split: sum.splits)
  from assms(5) obtain ev1 where
    lp: "processFrames_loop E cfg s1 = Inr (s', ev1)"
      and ev: "ev = Fed (word_of_int c) True # evf @ ev1"
    unfolding eq fr by (auto split: sum.splits)
  from frame_result [OF fr] obtain work where w:
    "evf = UartFlush # map Discarded (snd (drain u)) @ work" "list_all is_frame_work work"
    "uart s1 = fst (drain u)"
    by auto
  from drain_pending [of u] obtain late where d:
    "snd (drain u) = map uint (rx u @ late)"
    "pending u = rx u @ late @ pending (uart s1)"
    "rx (uart s1) = []"
    using w(3) by auto
  have p: "pending (uart s1) = concat (incoming (uart s1))"
    using d(3) by (simp add: pending_def)
  have "subseq (fed ev1) (concat (incoming (uart s1)))"
    using loop_fed [OF lp] by (simp only: p)
  moreover have "ev = Fed (word_of_int c) True # UartFlush
                  # map Discarded (map uint (rx u @ late)) @ work @ ev1"
    using ev w(1) d(1) by simp
  ultimately show ?thesis
    using w(2) d(2,3) lp p by metis
qed

lemma example_loop:
  "processFrames_loop example_engines example_config example_begun
     = Inr (example_begun
              \<lparr> uart := \<lparr> rx = [], incoming = [] \<rparr>,
                crsf := Live 3,
                linkStatistics := Some 3 \<rparr>,
            [Fed 200 True, UartFlush, Discarded 7, Discarded 9,
             LinkStatisticsCallback 1 1, TelemetrySent,
             Fed 5 False, Fed 200 True, UartFlush,
             LinkStatisticsCallback 1 3, TelemetrySent])"
  by (simp add: example_begun_eq example_config_def example_engines_def
      processFrames_frame_def flushRemainingFrames_def
      processFrames_loop.simps drain.simps uart_available_def uart_read_def Let_def)

theorem processFrames_drops_backlog_witness:
  "0 < fst (uart_available (uart example_begun))
   \<and> uart_read (snd (uart_available (uart example_begun)))
       = (200, \<lparr> rx = [7], incoming = [[9], [], [], [5, 200]] \<rparr>)
   \<and> crsf example_begun = Live 0
   \<and> receiveFrames example_engines 0 (word_of_int 200) = (True, 1)
   \<and> (\<exists>late work (s1 :: (nat, unit, nat) receiver) ev1.
         ([Fed 200 True, UartFlush, Discarded 7, Discarded 9,
          LinkStatisticsCallback 1 1, TelemetrySent,
          Fed 5 False, Fed 200 True, UartFlush,
          LinkStatisticsCallback 1 3, TelemetrySent] :: nat event list)
           = Fed (word_of_int 200) True # UartFlush
               # map Discarded (map uint ([7] @ late)) @ work @ ev1
       \<and> list_all is_frame_work work
       \<and> [7, 9, 5, 200] = [7] @ late @ concat (incoming (uart s1))
       \<and> rx (uart s1) = []
       \<and> subseq (fed ev1) (concat (incoming (uart s1))))"
proof -
  let ?u = "\<lparr> rx = [7], incoming = [[9], [], [], [5, 200]] \<rparr>"
  have a: "0 < fst (uart_available (uart example_begun))"
    by (simp add: example_begun_eq uart_available_def)
  have b: "uart_read (snd (uart_available (uart example_begun))) = (200, ?u)"
    by (simp add: example_begun_eq uart_available_def uart_read_def)
  have c: "crsf example_begun = Live 0"
    by (simp add: example_begun_eq)
  have d: "receiveFrames example_engines 0 (word_of_int 200) = (True, 1)"
    by (simp add: example_engines_def)
  have p: "pending ?u = [7, 9, 5, 200]" by (simp add: pending_def)
  from processFrames_drops_backlog [OF a b c d example_loop]
  obtain late work and s1 :: "(nat, unit, nat) receiver" and ev1 where
    "([Fed 200 True, UartFlush, Discarded 7, Discarded 9,
      LinkStatisticsCallback 1 1, TelemetrySent,
      Fed 5 False, Fed 200 True, UartFlush,
      LinkStatisticsCallback 1 3, TelemetrySent] :: nat event list)
       = Fed (word_of_int 200) True # UartFlush
           # map Discarded (map uint (rx ?u @ late)) @ work @ ev1"
    "list_all is_frame_work work"
    "pending ?u = rx ?u @ late @ concat (incoming (uart s1))"
    "rx (uart s1) = []"
    "subseq (fed ev1) (concat (incoming (uart s1)))"
    by blast
  then have "\<exists>late work (s1 :: (nat, unit, nat) receiver) ev1.
         ([Fed 200 True, UartFlush, Discarded 7, Discarded 9,
          LinkStatisticsCallback 1 1, TelemetrySent,
          Fed 5 False, Fed 200 True, UartFlush,
          LinkStatisticsCallback 1 3, TelemetrySent] :: nat event list)
           = Fed (word_of_int 200) True # UartFlush
               # map Discarded (map uint ([7] @ late)) @ work @ ev1
       \<and> list_all is_frame_work work
       \<and> [7, 9, 5, 200] = [7] @ late @ concat (incoming (uart s1))
       \<and> rx (uart s1) = []
       \<and> subseq (fed ev1) (concat (incoming (uart s1)))"
    unfolding p
    by - (rule exI [of _ late], rule exI [of _ work], rule exI [of _ s1], rule exI [of _ ev1],
        simp)
  with a b c d show ?thesis by blast
qed

section \<open>The valid flag\<close>

lemma begin_valid:
  "valid (rcChannels (fst (snd (SerialReceiver_begin E cfg s)))) = valid (rcChannels s)"
  by (simp add: SerialReceiver_begin_def Let_def split: option.split prod.split)

lemma end_valid:
  "SerialReceiver_end cfg s = Inr (s', ev) \<Longrightarrow> valid (rcChannels s') = valid (rcChannels s)"
  by (auto simp: SerialReceiver_end_def end_telemetry_def Let_def
      split: prod.splits ptr.splits if_splits)

lemma processFrames_valid:
  assumes "processFrames E cfg s = Inr (s', ev)"
  shows "valid (rcChannels s') = valid (rcChannels s)"
proof -
  from assms obtain s1 ev1 where l: "processFrames_loop E cfg s = Inr (s1, ev1)"
    by (auto simp: processFrames_def split: sum.splits)
  from loop_keeps [OF l] have "rcChannels s1 = rcChannels s" by simp
  with assms l show ?thesis
    by (auto simp: processFrames_def Let_def split: ptr.splits)
qed

lemma telemetry_forward_valid:
  "telemetry_forward E s c = Inr (s', ev) \<Longrightarrow> valid (rcChannels s') = valid (rcChannels s)"
  by (auto simp: telemetry_forward_def split: ptr.splits)

lemma perform_valid:
  assumes "perform E cfg s c = Inr (s', ev)"
  shows "valid (rcChannels s') = valid (rcChannels s)"
proof (cases c)
  case Begin
  with assms show ?thesis
    using begin_valid [of E cfg s] by (cases "SerialReceiver_begin E cfg s") auto
next
  case End
  with assms show ?thesis by (simp add: end_valid)
next
  case ProcessFrames
  with assms show ?thesis by (simp add: processFrames_valid)
next
  case (ReadRcChannel ch raw)
  with assms show ?thesis
    by (auto simp: without_result_def readRcChannel_def split: sum.splits if_splits)
next
  case (GetChannel ch)
  with assms show ?thesis
    by (auto simp: without_result_def getChannel_def readRcChannel_def
        split: sum.splits if_splits)
next
  case (SetFlightMode i ch mn mx)
  with assms show ?thesis
    by (auto simp: without_result_def setFlightMode_def split: sum.splits if_splits)
next
  case HandleFlightMode
  with assms show ?thesis
    by (auto simp: handleFlightMode_def split: option.splits sum.splits)
next
  case (TelemetryWriteFlightMode i)
  with assms show ?thesis
    using telemetry_forward_valid
    by (fastforce simp: telemetryWriteFlightMode_def Let_def)
qed (use assms in \<open>auto simp: setLinkStatisticsCallback_def setRcChannelsCallback_def
      setFlightModeCallback_def telemetryWriteAttitude_def telemetryWriteBaroAltitude_def
      telemetryWriteBattery_def telemetryWriteCustomFlightMode_def telemetryWriteGPS_def
      dest: telemetry_forward_valid\<close>)

lemma run_valid:
  "run E cfg s cs = Inr (s', ev) \<Longrightarrow> valid (rcChannels s') = valid (rcChannels s)"
proof (induction cs arbitrary: s ev)
  case Nil
  then show ?case by simp
next
  case (Cons c cs)
  from Cons.prems obtain s1 ev1 ev2 where
    p: "perform E cfg s c = Inr (s1, ev1)" and r: "run E cfg s1 cs = Inr (s', ev2)"
    by (auto split: sum.splits)
  from Cons.IH [OF r] perform_valid [OF p] show ?case by simp
qed

text \<open>
  C5, as the code has it. The flag is false in a receiver that was just constructed,
  and after every sequence of calls that returns it is still false: no operation of the
  receiver writes the flag, whatever the engines do and however many frames were
  decoded.
\<close>

theorem valid_stays_false:
  assumes "run E cfg (SerialReceiver_new cfg port) cs = Inr (s, ev)"
  shows "\<not> valid (rcChannels (SerialReceiver_new cfg port :: ('d, 't, 'l) receiver))
       \<and> \<not> valid (rcChannels (s :: ('d, 't, 'l) receiver))"
  using run_valid [OF assms] by (simp add: SerialReceiver_new_def)

lemma example_run:
  "run example_engines example_config example_receiver [Begin, ProcessFrames]
     = Inr (example_begun
              \<lparr> uart := \<lparr> rx = [], incoming = [] \<rparr>,
                crsf := Live 3,
                linkStatistics := Some 3,
                rcChannels := \<lparr> valid = False, failsafe = False,
                                value_rc = replicate 16 992 \<rparr> \<rparr>,
            [UartBegin 420000, UartFlush,
             Fed 200 True, UartFlush, Discarded 7, Discarded 9,
             LinkStatisticsCallback 1 1, TelemetrySent,
             Fed 5 False, Fed 200 True, UartFlush,
             LinkStatisticsCallback 1 3, TelemetrySent,
             RcChannelsCallback 2
               \<lparr> valid = False, failsafe = False, value_rc = replicate 16 992 \<rparr>])"
  by (simp add: example_begin example_poll)

theorem valid_stays_false_witness:
  "run example_engines example_config
       (SerialReceiver_new example_config example_port) [SetRcChannelsCallback (Some 2)]
     = Inr (setRcChannelsCallback (SerialReceiver_new example_config example_port) (Some 2), [])
   \<and> \<not> valid (rcChannels
         (setRcChannelsCallback (SerialReceiver_new example_config example_port) (Some 2)
            :: (nat, unit, nat) receiver))"
proof -
  have r: "run example_engines example_config
       (SerialReceiver_new example_config example_port) [SetRcChannelsCallback (Some 2)]
     = Inr (setRcChannelsCallback (SerialReceiver_new example_config example_port) (Some 2), [])"
    by simp
  from valid_stays_false [OF r] r show ?thesis by simp
qed

text \<open>
  C5, as the specification has it, fails: the example receiver is begun and polled, the
  decoder completes two frames during the poll, and the flag is still false, in the
  receiver and in the snapshot handed to the callback.
\<close>

theorem valid_false_after_frames:
  "\<not> isl (run example_engines example_config example_receiver [Begin, ProcessFrames])
   \<and> snd (projr (run example_engines example_config example_receiver [Begin, ProcessFrames]))
       = [UartBegin 420000, UartFlush,
          Fed 200 True, UartFlush, Discarded 7, Discarded 9,
          LinkStatisticsCallback 1 1, TelemetrySent,
          Fed 5 False, Fed 200 True, UartFlush,
          LinkStatisticsCallback 1 3, TelemetrySent,
          RcChannelsCallback 2
            \<lparr> valid = False, failsafe = False, value_rc = replicate 16 992 \<rparr>]
   \<and> \<not> valid (rcChannels
         (fst (projr (run example_engines example_config example_receiver
                        [Begin, ProcessFrames]))))"
  by (simp only: example_run) simp

section \<open>Ending twice\<close>

lemma begin_ready:
  assumes "SerialReceiver_begin E cfg s = (True, s', ev)"
  shows "ready cfg s'"
  using assms
  by (auto simp: SerialReceiver_begin_def ready_def Let_def
      split: if_splits option.splits prod.splits)

text \<open>
  An engine that was never constructed is not torn down: with both pointers null
  \<^verbatim>\<open>end\<close> only drains and closes the port, and leaves the pointers null.
\<close>

lemma end_never_constructed:
  assumes "crsf s = Null" "telemetry s = Null"
  shows "SerialReceiver_end cfg s
           = Inr (s\<lparr>uart := fst (drain (uart s))\<rparr>,
                  UartFlush # map Discarded (snd (drain (uart s))) @ [UartEnd])"
  using assms
  by (simp add: SerialReceiver_end_def end_telemetry_def flushRemainingFrames_def Let_def
      split: prod.split)

lemma end_dangling:
  "crsf s = Dangling \<Longrightarrow> SerialReceiver_end cfg s = Inl UseAfterFree"
  by (simp add: SerialReceiver_end_def Let_def split: prod.split)

text \<open>
  C4, on the code. After a successful \<^verbatim>\<open>begin\<close> the first \<^verbatim>\<open>end\<close> returns, and the
  second \<^verbatim>\<open>end\<close> calls \<^verbatim>\<open>crsf->end()\<close> on the decoder the first one deleted: the
  pointer was not set to null, so the null test does not stop it.
\<close>

theorem end_twice_uses_deleted_decoder:
  assumes "SerialReceiver_begin E cfg s = (True, s1, ev1)"
  shows "\<exists>s2 ev2. SerialReceiver_end cfg s1 = Inr (s2, ev2)
           \<and> crsf s2 = Dangling
           \<and> SerialReceiver_end cfg s2 = Inl UseAfterFree"
proof -
  have "ready cfg s1" using assms by (rule begin_ready)
  then obtain d where d: "crsf s1 = Live d"
    and t: "CRSF_TELEMETRY_ENABLED cfg \<Longrightarrow> \<exists>t. telemetry s1 = Live t"
    by (auto simp: ready_def split: ptr.splits if_splits)
  obtain u ev where f: "flushRemainingFrames (uart s1) = (u, ev :: 'c event list)"
    by (cases "flushRemainingFrames (uart s1) :: uart \<times> 'c event list")
  have "\<exists>s2 ev2. SerialReceiver_end cfg s1 = Inr (s2, ev2) \<and> crsf s2 = Dangling"
  proof (cases "CRSF_TELEMETRY_ENABLED cfg")
    case True
    with t obtain t' where "telemetry s1 = Live t'" by blast
    with True d f show ?thesis
      by (simp add: SerialReceiver_end_def end_telemetry_def Let_def)
  next
    case False
    with d f show ?thesis
      by (simp add: SerialReceiver_end_def end_telemetry_def Let_def)
  qed
  then obtain s2 ev2 where e: "SerialReceiver_end cfg s1 = Inr (s2, ev2)" and c: "crsf s2 = Dangling"
    by blast
  have "SerialReceiver_end cfg s2 = Inl UseAfterFree"
    using c by (rule end_dangling)
  with e c show ?thesis by blast
qed

lemma example_end:
  "SerialReceiver_end example_config example_begun
     = Inr (example_begun
              \<lparr> uart := \<lparr> rx = [], incoming = [[5, 200]] \<rparr>,
                crsf := Dangling,
                telemetry := Dangling \<rparr>,
            [UartFlush, Discarded 200, Discarded 7, Discarded 9, UartEnd,
             CrsfEnd, CrsfDeleted, TelemetryEnd, TelemetryDeleted])"
  by (simp add: example_begun_eq example_config_def
      SerialReceiver_end_def end_telemetry_def flushRemainingFrames_def drain.simps
      uart_available_def uart_read_def Let_def)

theorem end_twice_uses_deleted_decoder_witness:
  "SerialReceiver_begin example_engines example_config example_receiver
     = (True, example_begun, [UartBegin 420000, UartFlush])
   \<and> (\<exists>s2 ev2. SerialReceiver_end example_config example_begun
                  = Inr (s2 :: (nat, unit, nat) receiver, ev2 :: nat event list)
         \<and> crsf s2 = Dangling
         \<and> SerialReceiver_end example_config s2 = Inl UseAfterFree)
   \<and> run example_engines example_config example_receiver [Begin, End, End]
       = Inl UseAfterFree"
proof -
  have r: "run example_engines example_config example_receiver [Begin, End, End]
             = Inl UseAfterFree"
    by (simp add: example_begin example_end end_dangling)
  from end_twice_uses_deleted_decoder [OF example_begin] example_begin r
  show ?thesis by simp
qed

end
